theory Spec2Isabelle
  imports Main
begin

section \<open>Cafenet: the inventory ledger and its persistent undo stack\<close>

text \<open>
  The program is one Python file, \<^verbatim>\<open>Cafenet.py\<close>: a Tk front end over an SQLite
  database with the tables \<^verbatim>\<open>products\<close>, \<^verbatim>\<open>sales_log\<close>, \<^verbatim>\<open>undo_stack\<close> and
  \<^verbatim>\<open>logs\<close>. The commands are the methods \<^verbatim>\<open>add_product\<close>, \<^verbatim>\<open>sell_item\<close>,
  \<^verbatim>\<open>delete_item\<close>, \<^verbatim>\<open>undo_last\<close> and \<^verbatim>\<open>_delete_sales_record\<close> of the class
  \<^verbatim>\<open>CafenetApp\<close>; all but the last end by calling \<^verbatim>\<open>refresh_list\<close>, which also
  deletes the rows whose quantity is zero or negative.

  The embedding passes the state explicitly. A table is the list of its rows in the
  order of insertion; \<^verbatim>\<open>WHERE id=?\<close> is a filter on it and \<^verbatim>\<open>ORDER BY\<close> sorts at
  the time of the query. Integers are Python's, hence \<open>int\<close>. What the user is shown
  (a message box, the status line, or nothing) is the second component of a command's
  result.
\<close>

subsection \<open>Rows\<close>

text \<open>The columns of \<^verbatim>\<open>products\<close>, as \<^verbatim>\<open>init_db\<close> creates them.\<close>

record product =
  pid :: int
  name :: string
  qty :: int
  buy_price :: int
  sell_price :: int
  sold_qty :: int

text \<open>
  The columns of \<^verbatim>\<open>sales_log\<close>. \<open>product_id\<close> is nullable: the foreign key is
  declared \<^verbatim>\<open>ON DELETE SET NULL\<close>, and \<^verbatim>\<open>get_connection\<close> turns foreign keys on for
  every connection. The timestamp is the text of \<^verbatim>\<open>datetime.now().isoformat()\<close>,
  which SQLite compares as text, that is chronologically; it is a clock reading here.
\<close>

record sale =
  sid :: int
  product_id :: "int option"
  sale_qty :: int
  price_buy :: int
  price_sell :: int
  profit :: int
  timestamp :: nat

text \<open>
  The payload of an undo entry is a Python dictionary, written to the table with
  \<^verbatim>\<open>json.dumps\<close> and read back with \<^verbatim>\<open>json.loads\<close>; \<^verbatim>\<open>undo_last\<close> reads every key
  with \<^verbatim>\<open>.get\<close>, so each key may be missing: \<open>None\<close> is the missing key. The
  dictionary is stored as it is (the JSON text of integers and strings reads back as
  the same values).
\<close>

record snapshot =
  snap_name :: "string option"
  snap_qty :: "int option"
  snap_buy :: "int option"
  snap_sell :: "int option"
  snap_sold :: "int option"

record payload =
  p_product_id :: "int option"
  p_qty :: "int option"
  p_prev_qty :: "int option"
  p_prev_sold :: "int option"
  p_sales_log_id :: "int option"
  p_data :: "snapshot option"

definition empty_payload :: payload where
  "empty_payload = \<lparr>p_product_id = None, p_qty = None, p_prev_qty = None,
     p_prev_sold = None, p_sales_log_id = None, p_data = None\<rparr>"

record undo_entry =
  uid :: int
  action :: string
  upayload :: payload

subsection \<open>The state\<close>

text \<open>The entries of the filter menu (\<^verbatim>\<open>var_filter\<close>), in the order of the menu.\<close>

datatype filter_val = All | Below5 | LowestStock | BestSeller | MostProfitable

text \<open>
  The four tables, the \<^verbatim>\<open>sqlite_sequence\<close> counter of each \<^verbatim>\<open>AUTOINCREMENT\<close> key
  that the program reads back, and what the object keeps in memory: the mirror
  \<^verbatim>\<open>_undo_stack\<close>, the product ids of the rows of the list widget \<^verbatim>\<open>tree\<close>, the
  search text (\<^verbatim>\<open>var_search.get().strip()\<close>) and the filter. Of a \<^verbatim>\<open>logs\<close> row only
  the action is kept; the program never reads the table.
\<close>

record state =
  products :: "product list"
  products_seq :: int
  sales_log :: "sale list"
  sales_seq :: int
  undo_stack :: "undo_entry list"
  undo_seq :: int
  logs :: "string list"
  mirror :: "undo_entry list"
  tree :: "int list"
  var_search :: string
  var_filter :: filter_val

text \<open>The state after \<^verbatim>\<open>init_db\<close> on a new file, with the widgets as \<^verbatim>\<open>_create_vars\<close> sets them.\<close>

definition init_state :: state where
  "init_state = \<lparr>products = [], products_seq = 0, sales_log = [], sales_seq = 0,
     undo_stack = [], undo_seq = 0, logs = [], mirror = [], tree = [],
     var_search = [], var_filter = All\<rparr>"

subsection \<open>Storage failures and what the user sees\<close>

text \<open>
  Every write opens a connection, executes and commits; any of these can raise
  (\<^verbatim>\<open>sqlite3.OperationalError\<close> on a locked file or a full disk, \<^verbatim>\<open>OverflowError\<close> on an
  integer beyond 64 bits), and the program catches most of them. A write that raises
  has not committed and changes nothing. Which writes raise is an input of the model:
  a predicate on the write transactions of a command. Reads are taken to succeed.
\<close>

datatype txn =
    TxInsertProduct
  | TxLog
  | TxPushUndo
  | TxSell
  | TxDeleteProduct
  | TxPopUndo
  | TxUndoAdd
  | TxUndoSellUpdate
  | TxUndoSellDelete
  | TxUndoSellFallback
  | TxUndoDeleteInsert
  | TxUndoDeleteFallback
  | TxCleanup int
  | TxDeleteSale

type_synonym faults = "txn \<Rightarrow> bool"

definition no_faults :: faults where
  "no_faults t = False"

definition only_fault :: "txn \<Rightarrow> faults" where
  "only_fault t u = (u = t)"

text \<open>
  What a command shows: the message boxes (\<^verbatim>\<open>showwarning\<close>, \<^verbatim>\<open>showinfo\<close>,
  \<^verbatim>\<open>showerror\<close>) and the texts of the status line, one constructor for each place of the
  source. \<open>Silent\<close> is a plain \<^verbatim>\<open>return\<close> that shows nothing; \<open>Uncaught\<close> is an
  exception that leaves the method.
\<close>

datatype outcome =
    Silent
  | Uncaught
  | Warn_NoSelection
  | Warn_Incomplete
  | Err_NotNumeric
  | Err_InsertFailed
  | Info_OutOfStock
  | Err_SellFailed
  | Info_NothingToUndo
  | Warn_UnknownAction
  | Err_UndoFailed
  | Info_SaleDeleted
  | Status_Added
  | Status_Sold int
  | Status_Deleted
  | Status_UndoAdd
  | Status_UndoSell
  | Status_UndoDelete

text \<open>Whether the user is told anything at all.\<close>

fun reported :: "outcome \<Rightarrow> bool" where
  "reported Silent = False"
| "reported Uncaught = False"
| "reported _ = True"

subsection \<open>SQL on the tables\<close>

text \<open>
  The id of a row inserted without one. The key is \<^verbatim>\<open>AUTOINCREMENT\<close>: one more than
  the largest id the table has ever held, which SQLite keeps in \<^verbatim>\<open>sqlite_sequence\<close>.
\<close>

definition next_rowid :: "int \<Rightarrow> int list \<Rightarrow> int" where
  "next_rowid seq ids = fold max ids seq + 1"

text \<open>\<^verbatim>\<open>SELECT ... FROM products WHERE id=?\<close> and \<^verbatim>\<open>rows[0]\<close>.\<close>

definition find_product :: "int \<Rightarrow> product list \<Rightarrow> product option" where
  "find_product k ps = find (\<lambda>r. pid r = k) ps"

text \<open>
  \<^verbatim>\<open>DELETE FROM products WHERE id=?\<close>; the sales rows that refer to the product
  keep everything but the reference.
\<close>

definition set_null :: "int \<Rightarrow> sale \<Rightarrow> sale" where
  "set_null k r = (if product_id r = Some k then r\<lparr>product_id := None\<rparr> else r)"

definition delete_product_row :: "int \<Rightarrow> state \<Rightarrow> state" where
  "delete_product_row k s =
     s\<lparr>products := filter (\<lambda>r. pid r \<noteq> k) (products s),
       sales_log := map (set_null k) (sales_log s)\<rparr>"

text \<open>\<^verbatim>\<open>DELETE FROM sales_log WHERE id=?\<close>.\<close>

definition delete_sale_row :: "int \<Rightarrow> state \<Rightarrow> state" where
  "delete_sale_row k s = s\<lparr>sales_log := filter (\<lambda>r. sid r \<noteq> k) (sales_log s)\<rparr>"

text \<open>
  \<^verbatim>\<open>ORDER BY key DESC LIMIT 1\<close>: a row with the largest key, if there is a row.
  Among rows with equal keys SQL leaves the choice open; the model takes the first
  in the table.
\<close>

fun top_by :: "('a \<Rightarrow> 'k::linorder) \<Rightarrow> 'a list \<Rightarrow> 'a option" where
  "top_by f [] = None"
| "top_by f (x # xs) =
     (case top_by f xs of
        None \<Rightarrow> Some x
      | Some y \<Rightarrow> if f x < f y then Some y else Some x)"

text \<open>
  \<^verbatim>\<open>name LIKE ?\<close>: \<^verbatim>\<open>%\<close> stands for any run of characters, \<^verbatim>\<open>_\<close> for one
  character, and the letters A to Z match in either case.
\<close>

definition ascii_lower :: "char \<Rightarrow> char" where
  "ascii_lower c =
     (let n = (of_char c :: nat) in if 65 \<le> n \<and> n \<le> 90 then char_of (n + 32) else c)"

fun like :: "string \<Rightarrow> string \<Rightarrow> bool" where
  "like [] s = (s = [])"
| "like (p # ps) [] = (p = CHR ''%'' \<and> like ps [])"
| "like (p # ps) (c # cs) =
     (if p = CHR ''%'' then like ps (c # cs) \<or> like (p # ps) cs
      else if p = CHR ''_'' then like ps cs
      else ascii_lower p = ascii_lower c \<and> like ps cs)"

text \<open>\<^verbatim>\<open>UPDATE products SET qty=?, sold_qty=? WHERE id=?\<close>.\<close>

definition update_product_row :: "int option \<Rightarrow> int \<Rightarrow> int \<Rightarrow> state \<Rightarrow> state" where
  "update_product_row k q sd s =
     s\<lparr>products := map (\<lambda>r. if Some (pid r) = k then r\<lparr>qty := q, sold_qty := sd\<rparr> else r)
                       (products s)\<rparr>"

text \<open>\<^verbatim>\<open>UPDATE products SET qty=qty + ?, sold_qty = MAX(sold_qty - ?, 0) WHERE id=?\<close>.\<close>

definition add_back_row :: "int option \<Rightarrow> int \<Rightarrow> state \<Rightarrow> state" where
  "add_back_row k n s =
     s\<lparr>products := map (\<lambda>r. if Some (pid r) = k
                            then r\<lparr>qty := qty r + n, sold_qty := max (sold_qty r - n) 0\<rparr>
                            else r)
                       (products s)\<rparr>"

text \<open>\<^verbatim>\<open>dict.get(key, default)\<close>.\<close>

definition get_or :: "'a option \<Rightarrow> 'a \<Rightarrow> 'a" where
  "get_or v d = (case v of None \<Rightarrow> d | Some x \<Rightarrow> x)"

text \<open>
  \<^verbatim>\<open>INSERT INTO products\<close> of a saved row, with the id given or without (\<open>None\<close>, also
  a \<^verbatim>\<open>NULL\<close> id). The insert raises \<^verbatim>\<open>IntegrityError\<close>, here \<open>None\<close>, when the name
  is \<^verbatim>\<open>NULL\<close> (the column is \<^verbatim>\<open>NOT NULL\<close>) or the id is that of a row of the table.
\<close>

definition saved_row :: "int \<Rightarrow> string \<Rightarrow> snapshot \<Rightarrow> product" where
  "saved_row i nm d =
     \<lparr>pid = i, name = nm, qty = get_or (snap_qty d) 0, buy_price = get_or (snap_buy d) 0,
      sell_price = get_or (snap_sell d) 0, sold_qty = get_or (snap_sold d) 0\<rparr>"

definition insert_product :: "int option \<Rightarrow> snapshot \<Rightarrow> state \<Rightarrow> state option" where
  "insert_product k d s =
     (case snap_name d of
        None \<Rightarrow> None
      | Some nm \<Rightarrow>
          (case k of
             None \<Rightarrow>
               (let i = next_rowid (products_seq s) (map pid (products s))
                in Some (s\<lparr>products := products s @ [saved_row i nm d], products_seq := i\<rparr>))
           | Some i \<Rightarrow>
               if i \<in> set (map pid (products s)) then None
               else Some (s\<lparr>products := products s @ [saved_row i nm d],
                            products_seq := max (products_seq s) i\<rparr>)))"

subsection \<open>The helpers of the class\<close>

text \<open>\<^verbatim>\<open>log_action\<close>: a failure of the insert is logged to the file and goes no further.\<close>

definition log_action :: "faults \<Rightarrow> string \<Rightarrow> state \<Rightarrow> state" where
  "log_action fails a s = (if fails TxLog then s else s\<lparr>logs := logs s @ [a]\<rparr>)"

text \<open>
  \<^verbatim>\<open>_push_undo\<close>: a transaction of its own; the whole body is in a \<^verbatim>\<open>try\<close> whose
  handler only logs, so a failure leaves table and mirror as they were and the caller
  does not learn of it.
\<close>

definition push_undo :: "faults \<Rightarrow> string \<Rightarrow> payload \<Rightarrow> state \<Rightarrow> state" where
  "push_undo fails act pl s =
     (if fails TxPushUndo then s
      else
        (let undo_id = next_rowid (undo_seq s) (map uid (undo_stack s));
             e = \<lparr>uid = undo_id, action = act, upayload = pl\<rparr>
         in s\<lparr>undo_stack := undo_stack s @ [e], undo_seq := undo_id,
              mirror := mirror s @ [e]\<rparr>))"

text \<open>
  \<^verbatim>\<open>_pop_undo_db\<close>: the entry with the highest id is read and deleted in one
  transaction; the mirror loses its last element if that has the same id, otherwise the
  last of its elements with that id. A failure gives \<open>None\<close>, as an empty table does.
\<close>

fun remove_first :: "('a \<Rightarrow> bool) \<Rightarrow> 'a list \<Rightarrow> 'a list" where
  "remove_first P [] = []"
| "remove_first P (x # xs) = (if P x then xs else x # remove_first P xs)"

definition pop_mirror :: "int \<Rightarrow> undo_entry list \<Rightarrow> undo_entry list" where
  "pop_mirror u m =
     (if m \<noteq> [] \<and> uid (last m) = u then butlast m
      else rev (remove_first (\<lambda>e. uid e = u) (rev m)))"

definition pop_undo_db :: "faults \<Rightarrow> state \<Rightarrow> state \<times> undo_entry option" where
  "pop_undo_db fails s =
     (if fails TxPopUndo then (s, None)
      else
        (case top_by uid (undo_stack s) of
           None \<Rightarrow> (s, None)
         | Some e \<Rightarrow>
             (s\<lparr>undo_stack := filter (\<lambda>x. uid x \<noteq> uid e) (undo_stack s),
                mirror := pop_mirror (uid e) (mirror s)\<rparr>,
              Some e)))"

subsection \<open>\<^verbatim>\<open>refresh_list\<close>\<close>

text \<open>
  The rows the query returns: all of them when the search text is empty, otherwise
  those whose name is \<^verbatim>\<open>LIKE\<close> the text between two \<^verbatim>\<open>%\<close>; ordered by the filter.
  The order among rows with equal sort keys is left open by SQL.
\<close>

definition listed :: "string \<Rightarrow> product \<Rightarrow> bool" where
  "listed q r = (q = [] \<or> like (CHR ''%'' # q @ [CHR ''%'']) (name r))"

definition fetch_rows :: "state \<Rightarrow> product list" where
  "fetch_rows s =
     (let ms = filter (listed (var_search s)) (products s)
      in case var_filter s of
           BestSeller \<Rightarrow> rev (sort_key sold_qty ms)
         | MostProfitable \<Rightarrow> rev (sort_key (\<lambda>r. sold_qty r * (sell_price r - buy_price r)) ms)
         | LowestStock \<Rightarrow> sort_key qty (rev (sort_key pid ms))
         | _ \<Rightarrow> rev (sort_key pid ms))"

text \<open>
  The loop over the fetched rows. A row with \<^verbatim>\<open>qty <= 0\<close> is deleted from the table
  (a failure is passed over) and not shown; under the filter for low stock a row with
  five or more is not shown; every other row goes into the widget.
\<close>

fun refresh_rows :: "faults \<Rightarrow> filter_val \<Rightarrow> product list \<Rightarrow> state \<Rightarrow> state" where
  "refresh_rows fails flt [] s = s"
| "refresh_rows fails flt (r # rs) s =
     (if qty r \<le> 0 then
        refresh_rows fails flt rs
          (if fails (TxCleanup (pid r)) then s else delete_product_row (pid r) s)
      else if flt = Below5 \<and> qty r \<ge> 5 then refresh_rows fails flt rs s
      else refresh_rows fails flt rs (s\<lparr>tree := tree s @ [pid r]\<rparr>))"

definition refresh_list :: "faults \<Rightarrow> state \<Rightarrow> state" where
  "refresh_list fails s = refresh_rows fails (var_filter s) (fetch_rows s) (s\<lparr>tree := []\<rparr>)"

subsection \<open>The commands\<close>

text \<open>
  What an entry box of the form holds once \<^verbatim>\<open>strip\<close> and \<^verbatim>\<open>clean_price_text\<close> are
  done: nothing, a text that \<^verbatim>\<open>int()\<close> rejects, or a text that it reads as an integer.
\<close>

datatype entry = Empty | NonNumeric | Numeric int

text \<open>
  \<^verbatim>\<open>add_product\<close>. The insert commits before the undo entry is pushed, each in a
  connection of its own.
\<close>

definition add_product ::
  "faults \<Rightarrow> string \<Rightarrow> entry \<Rightarrow> entry \<Rightarrow> entry \<Rightarrow> state \<Rightarrow> state \<times> outcome" where
  "add_product fails nm q b sl s =
     (if nm = [] \<or> q = Empty \<or> b = Empty \<or> sl = Empty then (s, Warn_Incomplete)
      else
        (case (q, b, sl) of
           (Numeric qi, Numeric bi, Numeric si) \<Rightarrow>
             if fails TxInsertProduct then (s, Err_InsertFailed)
             else
               (let last_id = next_rowid (products_seq s) (map pid (products s));
                    s1 = s\<lparr>products := products s @
                             [\<lparr>pid = last_id, name = nm, qty = qi, buy_price = bi,
                               sell_price = si, sold_qty = 0\<rparr>],
                           products_seq := last_id\<rparr>;
                    s2 = log_action fails ''ADD'' s1;
                    s3 = push_undo fails ''ADD'' (empty_payload\<lparr>p_product_id := Some last_id\<rparr>) s2
                in (refresh_list fails s3, Status_Added))
         | _ \<Rightarrow> (s, Err_NotNumeric)))"

text \<open>
  \<^verbatim>\<open>sell_item\<close>. \<open>sel\<close> is the id in the selected row of the list, \<open>confirm\<close> the
  answer to the question asked when more is requested than there is, \<open>now\<close> the clock.
  The update of the product and the insert of the sales row share one transaction.
\<close>

definition sell_item ::
  "faults \<Rightarrow> int option \<Rightarrow> int \<Rightarrow> bool \<Rightarrow> nat \<Rightarrow> state \<Rightarrow> state \<times> outcome" where
  "sell_item fails sel qty_to_sell confirm now s =
     (case sel of
        None \<Rightarrow> (s, Warn_NoSelection)
      | Some k \<Rightarrow>
          (case find_product k (products s) of
             None \<Rightarrow> (s, Silent)
           | Some r \<Rightarrow>
               if qty r \<le> 0 then (s, Info_OutOfStock)
               else
                 (let q1 = (if qty_to_sell < 1 then 1 else qty_to_sell)
                  in if q1 > qty r \<and> \<not> confirm then (s, Silent)
                     else
                       (let q2 = (if q1 > qty r then qty r else q1);
                            newq = qty r - q2;
                            newsold = sold_qty r + q2
                        in if fails TxSell then (s, Err_SellFailed)
                           else
                             (let s1 = update_product_row (Some k) newq newsold s;
                                  sales_log_id = next_rowid (sales_seq s1) (map sid (sales_log s1));
                                  s2 = s1\<lparr>sales_log := sales_log s1 @
                                           [\<lparr>sid = sales_log_id, product_id = Some k,
                                             sale_qty = q2, price_buy = buy_price r,
                                             price_sell = sell_price r,
                                             profit = (sell_price r - buy_price r) * q2,
                                             timestamp = now\<rparr>],
                                         sales_seq := sales_log_id\<rparr>;
                                  s3 = push_undo fails ''SELL''
                                         (empty_payload\<lparr>p_product_id := Some k, p_qty := Some q2,
                                            p_prev_qty := Some (qty r),
                                            p_prev_sold := Some (sold_qty r),
                                            p_sales_log_id := Some sales_log_id\<rparr>) s2;
                                  s4 = log_action fails ''SELL'' s3
                              in (refresh_list fails s4, Status_Sold q2))))))"

text \<open>
  \<^verbatim>\<open>delete_item\<close>. The undo entry is pushed first; the delete that follows is not in
  a \<^verbatim>\<open>try\<close>, so its failure leaves the method as an exception.
\<close>

definition delete_item :: "faults \<Rightarrow> int option \<Rightarrow> bool \<Rightarrow> state \<Rightarrow> state \<times> outcome" where
  "delete_item fails sel confirm s =
     (case sel of
        None \<Rightarrow> (s, Warn_NoSelection)
      | Some k \<Rightarrow>
          (case find_product k (products s) of
             None \<Rightarrow> (s, Silent)
           | Some r \<Rightarrow>
               if \<not> confirm then (s, Silent)
               else
                 (let s1 = push_undo fails ''DELETE''
                             (empty_payload\<lparr>p_product_id := Some k,
                                p_data := Some \<lparr>snap_name = Some (name r), snap_qty = Some (qty r),
                                                snap_buy = Some (buy_price r),
                                                snap_sell = Some (sell_price r),
                                                snap_sold = Some (sold_qty r)\<rparr>\<rparr>) s
                  in if fails TxDeleteProduct then (s1, Uncaught)
                     else
                       (let s2 = delete_product_row k s1;
                            s3 = log_action fails ''DELETE'' s2
                        in (refresh_list fails s3, Status_Deleted)))))"

text \<open>
  The \<^verbatim>\<open>try\<close> block of \<^verbatim>\<open>undo_last\<close>, by the action of the popped entry. An
  exception that reaches the handler of the block shows the error box; the two inner
  \<^verbatim>\<open>try\<close> blocks (the delete of the sales row, the insert of the deleted product) fall
  back to a second attempt instead.
\<close>

definition undo_add :: "faults \<Rightarrow> payload \<Rightarrow> state \<Rightarrow> state \<times> outcome" where
  "undo_add fails pl s =
     (if fails TxUndoAdd then (s, Err_UndoFailed)
      else
        (let s1 = (case p_product_id pl of None \<Rightarrow> s | Some k \<Rightarrow> delete_product_row k s)
         in (log_action fails ''UNDO_ADD'' s1, Status_UndoAdd)))"

text \<open>
  The fallback of the sales row: the most recent row of the same product and quantity
  (\<^verbatim>\<open>product_id=? AND qty=? ORDER BY timestamp DESC LIMIT 1\<close>). A missing product id
  is \<^verbatim>\<open>NULL\<close>, which equals nothing.
\<close>

definition matching_sale :: "int option \<Rightarrow> int \<Rightarrow> sale list \<Rightarrow> sale option" where
  "matching_sale k q rows =
     top_by timestamp (filter (\<lambda>r. k \<noteq> None \<and> product_id r = k \<and> sale_qty r = q) rows)"

definition undo_sell :: "faults \<Rightarrow> payload \<Rightarrow> state \<Rightarrow> state \<times> outcome" where
  "undo_sell fails pl s =
     (let k = p_product_id pl;
          q = get_or (p_qty pl) 1
      in if fails TxUndoSellUpdate then (s, Err_UndoFailed)
         else
           (let s1 = (case (p_prev_qty pl, p_prev_sold pl) of
                        (Some prev_qty, Some prev_sold) \<Rightarrow> update_product_row k prev_qty prev_sold s
                      | _ \<Rightarrow> add_back_row k q s);
                s2 = (case p_sales_log_id pl of
                        None \<Rightarrow> s1
                      | Some i \<Rightarrow>
                          if i = 0 then s1
                          else if \<not> fails TxUndoSellDelete then delete_sale_row i s1
                          else if fails TxUndoSellFallback then s1
                          else (case matching_sale k q (sales_log s1) of
                                  None \<Rightarrow> s1
                                | Some row \<Rightarrow> delete_sale_row (sid row) s1))
            in (log_action fails ''UNDO_SELL'' s2, Status_UndoSell)))"

definition undo_delete :: "faults \<Rightarrow> payload \<Rightarrow> state \<Rightarrow> state \<times> outcome" where
  "undo_delete fails pl s =
     (let d = get_or (p_data pl)
                \<lparr>snap_name = None, snap_qty = None, snap_buy = None, snap_sell = None,
                 snap_sold = None\<rparr>;
          first_try = (if fails TxUndoDeleteInsert then None
                       else insert_product (p_product_id pl) d s);
          s1 = (case first_try of
                  Some s' \<Rightarrow> s'
                | None \<Rightarrow>
                    (case (if fails TxUndoDeleteFallback then None else insert_product None d s) of
                       Some s' \<Rightarrow> s'
                     | None \<Rightarrow> s))
      in (log_action fails ''UNDO_DELETE'' s1, Status_UndoDelete))"

definition compensate :: "faults \<Rightarrow> undo_entry \<Rightarrow> state \<Rightarrow> state \<times> outcome" where
  "compensate fails e s =
     (if action e = ''ADD'' then undo_add fails (upayload e) s
      else if action e = ''SELL'' then undo_sell fails (upayload e) s
      else if action e = ''DELETE'' then undo_delete fails (upayload e) s
      else (s, Warn_UnknownAction))"

text \<open>
  \<^verbatim>\<open>undo_last\<close>: the pop has committed before the compensation starts, and each
  statement of the compensation is a transaction of its own.
\<close>

definition undo_last :: "faults \<Rightarrow> state \<Rightarrow> state \<times> outcome" where
  "undo_last fails s =
     (case pop_undo_db fails s of
        (s1, None) \<Rightarrow> (s1, Info_NothingToUndo)
      | (s1, Some e) \<Rightarrow>
          (case compensate fails e s1 of
             (s2, out) \<Rightarrow> (refresh_list fails s2, out)))"

text \<open>
  \<^verbatim>\<open>_delete_sales_record\<close>, the button of the sales history: \<open>sel\<close> is the id in the
  selected row of the history. It pushes nothing on the undo stack.
\<close>

definition delete_sales_record :: "faults \<Rightarrow> int option \<Rightarrow> bool \<Rightarrow> state \<Rightarrow> state \<times> outcome" where
  "delete_sales_record fails sel confirm s =
     (case sel of
        None \<Rightarrow> (s, Silent)
      | Some k \<Rightarrow>
          if confirm then
            (if fails TxDeleteSale then (s, Uncaught)
             else (log_action fails ''DELETE_SALE'' (delete_sale_row k s), Info_SaleDeleted))
          else (s, Silent))"

subsection \<open>Invariants of the state\<close>

text \<open>
  The list widget shows only rows that exist with a positive quantity: what a
  selection can refer to.
\<close>

definition view_ok :: "state \<Rightarrow> bool" where
  "view_ok s =
     (\<forall>k \<in> set (tree s). \<exists>r. find_product k (products s) = Some r \<and> 0 < qty r)"

text \<open>
  No row that the current search lists has a quantity of zero or less: the state is as
  a refresh leaves it, and a further refresh deletes nothing.
\<close>

definition settled :: "state \<Rightarrow> bool" where
  "settled s = (\<forall>r \<in> set (products s). listed (var_search s) r \<longrightarrow> 0 < qty r)"

text \<open>
  For the proofs: the ids that the loop of \<^verbatim>\<open>refresh_list\<close> deletes, given the rows
  it has fetched.
\<close>

definition cleaned :: "faults \<Rightarrow> product list \<Rightarrow> int set" where
  "cleaned f rs = {pid x | x. x \<in> set rs \<and> qty x \<le> 0 \<and> \<not> f (TxCleanup (pid x))}"

subsection \<open>The scenarios of the specification\<close>

text \<open>Add("Coffee", 10, 1000, 1500) and Add("Tea", 2, 500, 800), each on a new database.\<close>

definition coffee_row :: product where
  "coffee_row = \<lparr>pid = 1, name = ''Coffee'', qty = 10, buy_price = 1000, sell_price = 1500,
     sold_qty = 0\<rparr>"

definition coffee_added :: state where
  "coffee_added =
     fst (add_product no_faults ''Coffee'' (Numeric 10) (Numeric 1000) (Numeric 1500) init_state)"

definition tea_added :: state where
  "tea_added =
     fst (add_product no_faults ''Tea'' (Numeric 2) (Numeric 500) (Numeric 800) init_state)"

text \<open>Coffee added, then 3 sold at time 1 and 3 more at time 2.\<close>

definition coffee_sold_twice :: state where
  "coffee_sold_twice =
     fst (sell_item no_faults (Some 1) 3 True 2
       (fst (sell_item no_faults (Some 1) 3 True 1 coffee_added)))"

text \<open>The row of Add("Tea", 2, 500, 800) on a new database.\<close>

definition tea_row :: product where
  "tea_row = \<lparr>pid = 1, name = ''Tea'', qty = 2, buy_price = 500, sell_price = 800, sold_qty = 0\<rparr>"

text \<open>Tea added, 5 asked for and 2 sold, and the delete of the emptied row failing.\<close>

definition tea_stuck :: state where
  "tea_stuck = fst (sell_item (only_fault (TxCleanup 1)) (Some 1) 5 True 0 tea_added)"

text \<open>Tea added, 5 asked for and 2 sold: the whole stock.\<close>

definition tea_sold :: state where
  "tea_sold = fst (sell_item no_faults (Some 1) 5 True 0 tea_added)"

text \<open>The entry that the sale of the tea has pushed.\<close>

definition tea_sell_entry :: undo_entry where
  "tea_sell_entry =
     \<lparr>uid = 2, action = ''SELL'',
      upayload = \<lparr>p_product_id = Some 1, p_qty = Some 2, p_prev_qty = Some 2, p_prev_sold = Some 0,
                   p_sales_log_id = Some 1, p_data = None\<rparr>\<rparr>"

text \<open>
  Coffee sold twice, and the second sales row deleted by hand in the sales history. The
  entry on top of the undo stack is that of the second sale.
\<close>

definition sale_two_removed :: state where
  "sale_two_removed = fst (delete_sales_record no_faults (Some 2) True coffee_sold_twice)"

definition second_sell_entry :: undo_entry where
  "second_sell_entry =
     \<lparr>uid = 3, action = ''SELL'',
      upayload = \<lparr>p_product_id = Some 1, p_qty = Some 3, p_prev_qty = Some 7, p_prev_sold = Some 3,
                   p_sales_log_id = Some 2, p_data = None\<rparr>\<rparr>"

definition first_sale :: sale where
  "first_sale = \<lparr>sid = 1, product_id = Some 1, sale_qty = 3, price_buy = 1000, price_sell = 1500,
     profit = 1500, timestamp = 1\<rparr>"


section \<open>Properties\<close>

subsection \<open>Row ids, lookups and the frame of the helpers\<close>

lemma fold_max_ge: "(a::int) \<le> fold max ids a"
  by (induction ids arbitrary: a) (auto intro: order_trans [OF max.cobounded2])

lemma fold_max_mem: "x \<in> set ids \<Longrightarrow> (x::int) \<le> fold max ids a"
proof (induction ids arbitrary: a)
  case Nil
  then show ?case by simp
next
  case (Cons y ys)
  show ?case
  proof (cases "x = y")
    case True
    have "y \<le> max y a" by simp
    also have "\<dots> \<le> fold max ys (max y a)" by (rule fold_max_ge)
    finally show ?thesis using True by simp
  next
    case False
    with Cons show ?thesis by simp
  qed
qed

lemma next_rowid_fresh: "x \<in> set ids \<Longrightarrow> x < next_rowid seq ids"
  using fold_max_mem [of x ids seq] by (simp add: next_rowid_def)

lemma next_rowid_seq: "seq < next_rowid seq ids"
  using fold_max_ge [of seq ids] by (simp add: next_rowid_def)

lemma top_by_None [simp]: "top_by f xs = None \<longleftrightarrow> xs = []"
  by (cases xs) (auto split: option.splits)

lemma top_by_snoc: "\<forall>x \<in> set xs. f x < f e \<Longrightarrow> top_by f (xs @ [e]) = Some e"
proof (induction xs)
  case Nil
  then show ?case by simp
next
  case (Cons x xs)
  then show ?case by simp
qed

lemma find_product_map:
  assumes "\<And>r. pid (g r) = pid r"
  shows "find_product k (map (\<lambda>r. if Some (pid r) = Some j then g r else r) ps) =
         (if k = j then map_option g (find_product k ps) else find_product k ps)"
  using assms by (induction ps) (auto simp: find_product_def)





lemma log_action_fields [simp]:
  "products (log_action f a s) = products s"
  "products_seq (log_action f a s) = products_seq s"
  "sales_log (log_action f a s) = sales_log s"
  "sales_seq (log_action f a s) = sales_seq s"
  "undo_stack (log_action f a s) = undo_stack s"
  "undo_seq (log_action f a s) = undo_seq s"
  "mirror (log_action f a s) = mirror s"
  "tree (log_action f a s) = tree s"
  "var_search (log_action f a s) = var_search s"
  "var_filter (log_action f a s) = var_filter s"
  by (simp_all add: log_action_def)

lemma push_undo_fields [simp]:
  "products (push_undo f a p s) = products s"
  "products_seq (push_undo f a p s) = products_seq s"
  "sales_log (push_undo f a p s) = sales_log s"
  "sales_seq (push_undo f a p s) = sales_seq s"
  "logs (push_undo f a p s) = logs s"
  "tree (push_undo f a p s) = tree s"
  "var_search (push_undo f a p s) = var_search s"
  "var_filter (push_undo f a p s) = var_filter s"
  by (simp_all add: push_undo_def Let_def)

lemma delete_product_row_fields [simp]:
  "products (delete_product_row k s) = filter (\<lambda>r. pid r \<noteq> k) (products s)"
  "sales_log (delete_product_row k s) = map (set_null k) (sales_log s)"
  "products_seq (delete_product_row k s) = products_seq s"
  "sales_seq (delete_product_row k s) = sales_seq s"
  "undo_stack (delete_product_row k s) = undo_stack s"
  "undo_seq (delete_product_row k s) = undo_seq s"
  "logs (delete_product_row k s) = logs s"
  "mirror (delete_product_row k s) = mirror s"
  "tree (delete_product_row k s) = tree s"
  "var_search (delete_product_row k s) = var_search s"
  "var_filter (delete_product_row k s) = var_filter s"
  by (simp_all add: delete_product_row_def)

lemma refresh_rows_fields [simp]:
  "products_seq (refresh_rows f flt rs s) = products_seq s"
  "sales_seq (refresh_rows f flt rs s) = sales_seq s"
  "undo_stack (refresh_rows f flt rs s) = undo_stack s"
  "undo_seq (refresh_rows f flt rs s) = undo_seq s"
  "logs (refresh_rows f flt rs s) = logs s"
  "mirror (refresh_rows f flt rs s) = mirror s"
  "var_search (refresh_rows f flt rs s) = var_search s"
  "var_filter (refresh_rows f flt rs s) = var_filter s"
  by (induction rs arbitrary: s; auto)+

lemma refresh_list_fields [simp]:
  "products_seq (refresh_list f s) = products_seq s"
  "sales_seq (refresh_list f s) = sales_seq s"
  "undo_stack (refresh_list f s) = undo_stack s"
  "undo_seq (refresh_list f s) = undo_seq s"
  "logs (refresh_list f s) = logs s"
  "mirror (refresh_list f s) = mirror s"
  "var_search (refresh_list f s) = var_search s"
  "var_filter (refresh_list f s) = var_filter s"
  by (simp_all add: refresh_list_def)

lemma cleaned_Nil [simp]: "cleaned f [] = {}"
  by (simp add: cleaned_def)

lemma cleaned_Cons:
  "cleaned f (r # rs) =
     (if qty r \<le> 0 \<and> \<not> f (TxCleanup (pid r)) then insert (pid r) (cleaned f rs) else cleaned f rs)"
  by (auto simp: cleaned_def)

lemma products_refresh_rows:
  "products (refresh_rows f flt rs s) = filter (\<lambda>r. pid r \<notin> cleaned f rs) (products s)"
proof (induction rs arbitrary: s)
  case Nil
  then show ?case by simp
next
  case (Cons r rs)
  then show ?case by (auto simp: cleaned_Cons intro: filter_cong)
qed

lemma sales_refresh_rows:
  "sales_log (refresh_rows f flt rs s) =
     map (\<lambda>r. if product_id r \<in> Some ` cleaned f rs then r\<lparr>product_id := None\<rparr> else r) (sales_log s)"
proof (induction rs arbitrary: s)
  case Nil
  then show ?case by (simp add: map_idI)
next
  case (Cons r rs)
  then show ?case by (auto simp: cleaned_Cons set_null_def)
qed

lemma refresh_rows_alive:
  "\<forall>r \<in> set rs. 0 < qty r \<Longrightarrow>
   refresh_rows f flt rs s =
     s\<lparr>tree := tree s @ map pid (filter (\<lambda>r. \<not> (flt = Below5 \<and> 5 \<le> qty r)) rs)\<rparr>"
  by (induction rs arbitrary: s) auto

lemma set_fetch_rows: "set (fetch_rows s) = {r \<in> set (products s). listed (var_search s) r}"
  by (auto simp: fetch_rows_def Let_def split: filter_val.splits)

lemma settled_refresh_list:
  "settled s \<Longrightarrow> refresh_list f s =
     s\<lparr>tree := map pid (filter (\<lambda>r. \<not> (var_filter s = Below5 \<and> 5 \<le> qty r)) (fetch_rows s))\<rparr>"
  unfolding refresh_list_def
  by (subst refresh_rows_alive) (auto simp: settled_def set_fetch_rows)


lemma settled_cong: "products t = products s \<Longrightarrow> var_search t = var_search s \<Longrightarrow> settled t = settled s"
  by (simp add: settled_def)

lemma no_faults_simp: "\<not> no_faults t"
  by (simp add: no_faults_def)

lemma filter_sid_fresh:
  "filter (\<lambda>x. sid x \<noteq> next_rowid seq (map sid rows)) rows = rows"
proof -
  have "\<forall>x \<in> set rows. sid x < next_rowid seq (map sid rows)"
    by (auto intro: next_rowid_fresh)
  then show ?thesis
    by (intro filter_True) auto
qed


lemma delete_sale_row_fields [simp]:
  "sales_log (delete_sale_row k s) = filter (\<lambda>r. sid r \<noteq> k) (sales_log s)"
  "products (delete_sale_row k s) = products s"
  "products_seq (delete_sale_row k s) = products_seq s"
  "sales_seq (delete_sale_row k s) = sales_seq s"
  "undo_stack (delete_sale_row k s) = undo_stack s"
  "undo_seq (delete_sale_row k s) = undo_seq s"
  "logs (delete_sale_row k s) = logs s"
  "mirror (delete_sale_row k s) = mirror s"
  "tree (delete_sale_row k s) = tree s"
  "var_search (delete_sale_row k s) = var_search s"
  "var_filter (delete_sale_row k s) = var_filter s"
  by (simp_all add: delete_sale_row_def)

lemma update_product_row_fields [simp]:
  "products (update_product_row k q sd s) =
     map (\<lambda>r. if Some (pid r) = k then r\<lparr>qty := q, sold_qty := sd\<rparr> else r) (products s)"
  "sales_log (update_product_row k q sd s) = sales_log s"
  "products_seq (update_product_row k q sd s) = products_seq s"
  "sales_seq (update_product_row k q sd s) = sales_seq s"
  "undo_stack (update_product_row k q sd s) = undo_stack s"
  "undo_seq (update_product_row k q sd s) = undo_seq s"
  "logs (update_product_row k q sd s) = logs s"
  "mirror (update_product_row k q sd s) = mirror s"
  "tree (update_product_row k q sd s) = tree s"
  "var_search (update_product_row k q sd s) = var_search s"
  "var_filter (update_product_row k q sd s) = var_filter s"
  by (simp_all add: update_product_row_def)

lemma add_back_row_fields [simp]:
  "products (add_back_row k n s) =
     map (\<lambda>r. if Some (pid r) = k then r\<lparr>qty := qty r + n, sold_qty := max (sold_qty r - n) 0\<rparr> else r)
       (products s)"
  "sales_log (add_back_row k n s) = sales_log s"
  "products_seq (add_back_row k n s) = products_seq s"
  "sales_seq (add_back_row k n s) = sales_seq s"
  "undo_stack (add_back_row k n s) = undo_stack s"
  "undo_seq (add_back_row k n s) = undo_seq s"
  "logs (add_back_row k n s) = logs s"
  "mirror (add_back_row k n s) = mirror s"
  "tree (add_back_row k n s) = tree s"
  "var_search (add_back_row k n s) = var_search s"
  "var_filter (add_back_row k n s) = var_filter s"
  by (simp_all add: add_back_row_def)

lemma undo_stack_push_undo:
  "undo_stack (push_undo f a p s) =
     (if f TxPushUndo then undo_stack s
      else undo_stack s @
        [\<lparr>uid = next_rowid (undo_seq s) (map uid (undo_stack s)), action = a, upayload = p\<rparr>])"
  by (simp add: push_undo_def Let_def)

lemma top_by_pushed:
  "\<not> f TxPushUndo \<Longrightarrow>
   top_by uid (undo_stack (push_undo f a p s)) =
     Some \<lparr>uid = next_rowid (undo_seq s) (map uid (undo_stack s)), action = a, upayload = p\<rparr>"
  by (simp add: undo_stack_push_undo top_by_snoc next_rowid_fresh)

lemma settled_refresh_fields:
  assumes "settled s"
  shows "products (refresh_list f s) = products s" "sales_log (refresh_list f s) = sales_log s"
  using settled_refresh_list [OF assms, of f] by simp_all

text \<open>What \<^verbatim>\<open>sell_item\<close> has committed before it refreshes the list.\<close>
lemma sell_item_commits:
  assumes r: "find_product k (products s) = Some r" and pos: "0 < qty r"
    and ok: "\<not> f TxSell" and q: "1 \<le> q" "q \<le> qty r"
  obtains t where
    "sell_item f (Some k) q confirm now s = (refresh_list f t, Status_Sold q)"
    "products t = map (\<lambda>x. if pid x = k then x\<lparr>qty := qty r - q, sold_qty := sold_qty r + q\<rparr> else x)
                    (products s)"
    "sales_log t = sales_log s @
        [\<lparr>sid = next_rowid (sales_seq s) (map sid (sales_log s)), product_id = Some k,
          sale_qty = q, price_buy = buy_price r, price_sell = sell_price r,
          profit = (sell_price r - buy_price r) * q, timestamp = now\<rparr>]"
    "undo_stack t = undo_stack (push_undo f ''SELL''
        (empty_payload\<lparr>p_product_id := Some k, p_qty := Some q, p_prev_qty := Some (qty r),
           p_prev_sold := Some (sold_qty r),
           p_sales_log_id := Some (next_rowid (sales_seq s) (map sid (sales_log s)))\<rparr>) s)"
    "var_search t = var_search s" "var_filter t = var_filter s"
proof -
  let ?n = "next_rowid (sales_seq s) (map sid (sales_log s))"
  let ?pl = "empty_payload\<lparr>p_product_id := Some k, p_qty := Some q, p_prev_qty := Some (qty r),
               p_prev_sold := Some (sold_qty r), p_sales_log_id := Some ?n\<rparr>"
  let ?s2 = "(update_product_row (Some k) (qty r - q) (sold_qty r + q) s)
               \<lparr>sales_log := sales_log s @
                  [\<lparr>sid = ?n, product_id = Some k, sale_qty = q, price_buy = buy_price r,
                    price_sell = sell_price r, profit = (sell_price r - buy_price r) * q,
                    timestamp = now\<rparr>],
                sales_seq := ?n\<rparr>"
  let ?t = "log_action f ''SELL'' (push_undo f ''SELL'' ?pl ?s2)"
  have "sell_item f (Some k) q confirm now s = (refresh_list f ?t, Status_Sold q)"
    using r pos ok q by (simp add: sell_item_def Let_def)
  moreover have "undo_stack ?t = undo_stack (push_undo f ''SELL'' ?pl s)"
    by (simp add: undo_stack_push_undo)
  ultimately show thesis
    by (intro that [of ?t]) simp_all
qed


lemma undo_last_top:
  assumes "\<not> f TxPopUndo" "top_by uid (undo_stack s) = Some e"
  shows "undo_last f s =
     (refresh_list f (fst (compensate f e
         (s\<lparr>undo_stack := filter (\<lambda>x. uid x \<noteq> uid e) (undo_stack s),
            mirror := pop_mirror (uid e) (mirror s)\<rparr>))),
      snd (compensate f e
         (s\<lparr>undo_stack := filter (\<lambda>x. uid x \<noteq> uid e) (undo_stack s),
            mirror := pop_mirror (uid e) (mirror s)\<rparr>)))"
  using assms by (simp add: undo_last_def pop_undo_db_def split: prod.splits)

lemma undo_sell_exact:
  assumes "\<not> f TxUndoSellUpdate" "\<not> f TxUndoSellDelete"
    and "p_prev_qty pl = Some pq" "p_prev_sold pl = Some ps" "p_sales_log_id pl = Some i" "i \<noteq> 0"
  shows "products (fst (undo_sell f pl s)) =
           map (\<lambda>r. if Some (pid r) = p_product_id pl then r\<lparr>qty := pq, sold_qty := ps\<rparr> else r)
             (products s)"
    and "sales_log (fst (undo_sell f pl s)) = filter (\<lambda>r. sid r \<noteq> i) (sales_log s)"
    and "snd (undo_sell f pl s) = Status_UndoSell"
  using assms by (simp_all add: undo_sell_def Let_def)

lemma compensate_frame [simp]:
  "var_search (fst (compensate f e s)) = var_search s"
  "var_filter (fst (compensate f e s)) = var_filter s"
  "undo_stack (fst (compensate f e s)) = undo_stack s"
  "undo_seq (fst (compensate f e s)) = undo_seq s"
  "mirror (fst (compensate f e s)) = mirror s"
  "sales_seq (fst (compensate f e s)) = sales_seq s"
  by (auto simp: compensate_def undo_add_def undo_sell_def undo_delete_def Let_def insert_product_def
      split: option.splits)


subsection \<open>The scenarios, evaluated\<close>

lemmas eval_defs = add_product_def sell_item_def delete_item_def undo_last_def
  delete_sales_record_def init_state_def next_rowid_def refresh_list_def fetch_rows_def
  listed_def find_product_def log_action_def push_undo_def pop_undo_db_def pop_mirror_def
  no_faults_def only_fault_def empty_payload_def update_product_row_def add_back_row_def
  delete_product_row_def delete_sale_row_def set_null_def compensate_def undo_add_def
  undo_sell_def undo_delete_def insert_product_def saved_row_def get_or_def matching_sale_def
  Let_def

lemma coffee_added_eq:
  "coffee_added =
     \<lparr>products = [coffee_row], products_seq = 1, sales_log = [], sales_seq = 0,
      undo_stack = [\<lparr>uid = 1, action = ''ADD'', upayload = empty_payload\<lparr>p_product_id := Some 1\<rparr>\<rparr>],
      undo_seq = 1, logs = [''ADD''],
      mirror = [\<lparr>uid = 1, action = ''ADD'', upayload = empty_payload\<lparr>p_product_id := Some 1\<rparr>\<rparr>],
      tree = [1], var_search = [], var_filter = All\<rparr>"
  by (simp add: coffee_added_def coffee_row_def eval_defs)

lemma tea_added_eq:
  "tea_added =
     \<lparr>products = [\<lparr>pid = 1, name = ''Tea'', qty = 2, buy_price = 500, sell_price = 800,
                   sold_qty = 0\<rparr>],
      products_seq = 1, sales_log = [], sales_seq = 0,
      undo_stack = [\<lparr>uid = 1, action = ''ADD'', upayload = empty_payload\<lparr>p_product_id := Some 1\<rparr>\<rparr>],
      undo_seq = 1, logs = [''ADD''],
      mirror = [\<lparr>uid = 1, action = ''ADD'', upayload = empty_payload\<lparr>p_product_id := Some 1\<rparr>\<rparr>],
      tree = [1], var_search = [], var_filter = All\<rparr>"
  by (simp add: tea_added_def eval_defs)

lemma coffee_added_settled: "settled coffee_added"
  by (simp add: coffee_added_eq settled_def coffee_row_def)

lemma coffee_sold_twice_eq:
  "coffee_sold_twice =
     \<lparr>products = [coffee_row\<lparr>qty := 4, sold_qty := 6\<rparr>], products_seq = 1,
      sales_log =
        [\<lparr>sid = 1, product_id = Some 1, sale_qty = 3, price_buy = 1000, price_sell = 1500,
          profit = 1500, timestamp = 1\<rparr>,
         \<lparr>sid = 2, product_id = Some 1, sale_qty = 3, price_buy = 1000, price_sell = 1500,
          profit = 1500, timestamp = 2\<rparr>],
      sales_seq = 2,
      undo_stack =
        [\<lparr>uid = 1, action = ''ADD'', upayload = empty_payload\<lparr>p_product_id := Some 1\<rparr>\<rparr>,
         \<lparr>uid = 2, action = ''SELL'',
          upayload = \<lparr>p_product_id = Some 1, p_qty = Some 3, p_prev_qty = Some 10,
                       p_prev_sold = Some 0, p_sales_log_id = Some 1, p_data = None\<rparr>\<rparr>,
         \<lparr>uid = 3, action = ''SELL'',
          upayload = \<lparr>p_product_id = Some 1, p_qty = Some 3, p_prev_qty = Some 7,
                       p_prev_sold = Some 3, p_sales_log_id = Some 2, p_data = None\<rparr>\<rparr>],
      undo_seq = 3, logs = [''ADD'', ''SELL'', ''SELL''],
      mirror =
        [\<lparr>uid = 1, action = ''ADD'', upayload = empty_payload\<lparr>p_product_id := Some 1\<rparr>\<rparr>,
         \<lparr>uid = 2, action = ''SELL'',
          upayload = \<lparr>p_product_id = Some 1, p_qty = Some 3, p_prev_qty = Some 10,
                       p_prev_sold = Some 0, p_sales_log_id = Some 1, p_data = None\<rparr>\<rparr>,
         \<lparr>uid = 3, action = ''SELL'',
          upayload = \<lparr>p_product_id = Some 1, p_qty = Some 3, p_prev_qty = Some 7,
                       p_prev_sold = Some 3, p_sales_log_id = Some 2, p_data = None\<rparr>\<rparr>],
      tree = [1], var_search = [], var_filter = All\<rparr>"
  by (simp add: coffee_sold_twice_def coffee_added_eq coffee_row_def eval_defs)

lemma tea_stuck_eq:
  "products tea_stuck = [tea_row\<lparr>qty := 0, sold_qty := 2\<rparr>] \<and>
   map sale_qty (sales_log tea_stuck) = [2]"
  by (simp add: tea_stuck_def tea_added_eq tea_row_def eval_defs)

lemma tea_sold_eq:
  "tea_sold =
     \<lparr>products = [], products_seq = 1,
      sales_log = [\<lparr>sid = 1, product_id = None, sale_qty = 2, price_buy = 500, price_sell = 800,
                    profit = 600, timestamp = 0\<rparr>],
      sales_seq = 1,
      undo_stack = [\<lparr>uid = 1, action = ''ADD'', upayload = empty_payload\<lparr>p_product_id := Some 1\<rparr>\<rparr>,
                    tea_sell_entry],
      undo_seq = 2, logs = [''ADD'', ''SELL''],
      mirror = [\<lparr>uid = 1, action = ''ADD'', upayload = empty_payload\<lparr>p_product_id := Some 1\<rparr>\<rparr>,
                tea_sell_entry],
      tree = [], var_search = [], var_filter = All\<rparr>"
  by (simp add: tea_sold_def tea_sell_entry_def tea_added_eq eval_defs)

lemma sale_two_removed_eq:
  "sale_two_removed =
     \<lparr>products = [coffee_row\<lparr>qty := 4, sold_qty := 6\<rparr>], products_seq = 1,
      sales_log = [first_sale], sales_seq = 2,
      undo_stack =
        [\<lparr>uid = 1, action = ''ADD'', upayload = empty_payload\<lparr>p_product_id := Some 1\<rparr>\<rparr>,
         \<lparr>uid = 2, action = ''SELL'',
          upayload = \<lparr>p_product_id = Some 1, p_qty = Some 3, p_prev_qty = Some 10,
                       p_prev_sold = Some 0, p_sales_log_id = Some 1, p_data = None\<rparr>\<rparr>,
         second_sell_entry],
      undo_seq = 3, logs = [''ADD'', ''SELL'', ''SELL'', ''DELETE_SALE''],
      mirror =
        [\<lparr>uid = 1, action = ''ADD'', upayload = empty_payload\<lparr>p_product_id := Some 1\<rparr>\<rparr>,
         \<lparr>uid = 2, action = ''SELL'',
          upayload = \<lparr>p_product_id = Some 1, p_qty = Some 3, p_prev_qty = Some 10,
                       p_prev_sold = Some 0, p_sales_log_id = Some 1, p_data = None\<rparr>\<rparr>,
         second_sell_entry],
      tree = [1], var_search = [], var_filter = All\<rparr>"
  by (simp add: sale_two_removed_def coffee_sold_twice_eq second_sell_entry_def first_sale_def
      delete_sales_record_def log_action_def delete_sale_row_def no_faults_def)

subsection \<open>Selling and undoing the sale\<close>

text \<open>
  C1 (as amended). A sale of \<open>q\<close> units, \<open>1 \<le> q\<close>, of a product that has more than
  \<open>q\<close> in stock, with no storage failure: afterwards the product has \<open>q\<close> less in stock
  and \<open>q\<close> more sold; the sales table has exactly one more row, with the product's buy
  and sell price and the profit \<open>q * (sell_price - buy_price)\<close>; and \<^verbatim>\<open>undo_last\<close>,
  called next, gives the product row back as it was and leaves the sales table as it was
  before the sale. The state is one that a refresh has left (\<open>settled\<close>), and the counter
  of the sales ids is not negative, as it never is in a database the program made.
\<close>

theorem sell_then_undo:
  assumes r: "find_product k (products s) = Some r"
    and q: "1 \<le> q" "q < qty r"
    and st: "settled s"
    and seq: "0 \<le> sales_seq s"
  shows "find_product k (products (fst (sell_item no_faults (Some k) q confirm now s))) =
           Some (r\<lparr>qty := qty r - q, sold_qty := sold_qty r + q\<rparr>) \<and>
         sales_log (fst (sell_item no_faults (Some k) q confirm now s)) =
           sales_log s @
             [\<lparr>sid = next_rowid (sales_seq s) (map sid (sales_log s)), product_id = Some k,
               sale_qty = q, price_buy = buy_price r, price_sell = sell_price r,
               profit = q * (sell_price r - buy_price r), timestamp = now\<rparr>] \<and>
         find_product k
           (products (fst (undo_last no_faults (fst (sell_item no_faults (Some k) q confirm now s))))) =
           Some r \<and>
         sales_log (fst (undo_last no_faults (fst (sell_item no_faults (Some k) q confirm now s)))) =
           sales_log s"
proof -
  let ?n = "next_rowid (sales_seq s) (map sid (sales_log s))"
  let ?pl = "empty_payload\<lparr>p_product_id := Some k, p_qty := Some q, p_prev_qty := Some (qty r),
               p_prev_sold := Some (sold_qty r), p_sales_log_id := Some ?n\<rparr>"
  define e where "e = \<lparr>uid = next_rowid (undo_seq s) (map uid (undo_stack s)), action = ''SELL'',
             upayload = ?pl\<rparr>"
  have pos: "0 < qty r" and le: "q \<le> qty r" using q by simp_all
  obtain t where t:
    "sell_item no_faults (Some k) q confirm now s = (refresh_list no_faults t, Status_Sold q)"
    "products t = map (\<lambda>x. if pid x = k then x\<lparr>qty := qty r - q, sold_qty := sold_qty r + q\<rparr> else x)
                    (products s)"
    "sales_log t = sales_log s @
        [\<lparr>sid = ?n, product_id = Some k, sale_qty = q, price_buy = buy_price r,
          price_sell = sell_price r, profit = (sell_price r - buy_price r) * q, timestamp = now\<rparr>]"
    "undo_stack t = undo_stack (push_undo no_faults ''SELL'' ?pl s)"
    "var_search t = var_search s" "var_filter t = var_filter s"
    by (rule sell_item_commits [OF r pos no_faults_simp q(1) le, where confirm = confirm and now = now])
  define s' where "s' = refresh_list no_faults t"
  have sell: "fst (sell_item no_faults (Some k) q confirm now s) = s'"
    by (simp add: t(1) s'_def)
  have st_t: "settled t"
    using st q t(2,5) by (auto simp: settled_def listed_def)
  have P': "products s' = products t" and S': "sales_log s' = sales_log t"
    unfolding s'_def using settled_refresh_fields [OF st_t] by simp_all
  have V': "var_search s' = var_search s"
    by (simp add: s'_def t(5))
  have top: "top_by uid (undo_stack s') = Some e"
    by (simp add: s'_def e_def t(4) top_by_pushed [OF no_faults_simp])
  define s1 where "s1 = s'\<lparr>undo_stack := filter (\<lambda>x. uid x \<noteq> uid e) (undo_stack s'),
                 mirror := pop_mirror (uid e) (mirror s')\<rparr>"
  define u where "u = fst (compensate no_faults e s1)"
  have undo: "fst (undo_last no_faults s') = refresh_list no_faults u"
    by (simp only: undo_last_top [OF no_faults_simp top] u_def s1_def fst_conv)
  have n0: "?n \<noteq> 0"
    using next_rowid_seq [of "sales_seq s" "map sid (sales_log s)"] seq by simp
  have comp: "compensate no_faults e s1 = undo_sell no_faults ?pl s1"
    by (simp add: compensate_def e_def)
  have Pu: "products u =
      map (\<lambda>x. if Some (pid x) = Some k then x\<lparr>qty := qty r, sold_qty := sold_qty r\<rparr> else x) (products t)"
    unfolding u_def comp
    by (subst undo_sell_exact(1) [where pq = "qty r" and ps = "sold_qty r" and i = ?n])
       (simp_all add: empty_payload_def n0 P' s1_def no_faults_simp)
  have Su: "sales_log u = sales_log s"
    unfolding u_def comp
    by (subst undo_sell_exact(2) [where pq = "qty r" and ps = "sold_qty r" and i = ?n])
       (simp_all add: empty_payload_def n0 S' s1_def t(3) filter_sid_fresh no_faults_simp)
  have Vu: "var_search u = var_search s"
    by (simp add: u_def s1_def V')
  have st_u: "settled u"
    using st pos t(2) unfolding settled_def Pu Vu by (auto simp: listed_def)
  have f1: "find_product k (products t) = Some (r\<lparr>qty := qty r - q, sold_qty := sold_qty r + q\<rparr>)"
    unfolding t(2) using r find_product_map [of "\<lambda>x. x\<lparr>qty := qty r - q, sold_qty := sold_qty r + q\<rparr>" k k "products s"]
    by simp
  have f2: "find_product k (products u) = Some r"
    unfolding Pu using f1 find_product_map [of "\<lambda>x. x\<lparr>qty := qty r, sold_qty := sold_qty r\<rparr>" k k "products t"]
    by simp
  show ?thesis
    unfolding sell undo settled_refresh_fields [OF st_u] P' S' f1 f2 Su t(3)
    by (simp add: mult.commute)
qed

text \<open>The scenario of the specification: 10 of Coffee, 3 sold, the sale undone.\<close>

theorem sell_then_undo_witness:
  "find_product 1 (products coffee_added) = Some coffee_row \<and> settled coffee_added \<and>
   find_product 1 (products (fst (sell_item no_faults (Some 1) 3 True 0 coffee_added))) =
     Some (coffee_row\<lparr>qty := 7, sold_qty := 3\<rparr>) \<and>
   sales_log (fst (sell_item no_faults (Some 1) 3 True 0 coffee_added)) =
     [\<lparr>sid = 1, product_id = Some 1, sale_qty = 3, price_buy = 1000, price_sell = 1500,
       profit = 1500, timestamp = 0\<rparr>] \<and>
   find_product 1
     (products (fst (undo_last no_faults (fst (sell_item no_faults (Some 1) 3 True 0 coffee_added))))) =
     Some coffee_row \<and>
   sales_log (fst (undo_last no_faults (fst (sell_item no_faults (Some 1) 3 True 0 coffee_added)))) = []"
proof -
  have h1: "find_product 1 (products coffee_added) = Some coffee_row"
    by (simp add: coffee_added_eq find_product_def coffee_row_def)
  have h2: "(1::int) \<le> 3" "3 < qty coffee_row" "0 \<le> sales_seq coffee_added"
    by (simp_all add: coffee_row_def coffee_added_eq)
  have n: "next_rowid (sales_seq coffee_added) [] = 1"
    by (simp add: coffee_added_eq next_rowid_def)
  have e: "sales_log coffee_added = []"
    by (simp add: coffee_added_eq)
  show ?thesis
    using sell_then_undo [OF h1 h2(1,2) coffee_added_settled h2(3), of True 0] h1 coffee_added_settled
    by (simp add: n e coffee_row_def)
qed

text \<open>
  C1 as stated fails when the whole stock is sold: the refresh that ends \<^verbatim>\<open>sell_item\<close>
  deletes the row whose quantity has become zero, and the \<^verbatim>\<open>UPDATE\<close> of \<^verbatim>\<open>undo_last\<close>
  finds no row to restore. Here 10 of 10 are sold.
\<close>

theorem sell_all_then_undo_counterexample:
  "find_product 1 (products coffee_added) = Some coffee_row \<and>
   find_product 1 (products (fst (sell_item no_faults (Some 1) 10 True 0 coffee_added))) = None \<and>
   find_product 1
     (products (fst (undo_last no_faults (fst (sell_item no_faults (Some 1) 10 True 0 coffee_added))))) =
     None"
  by (simp add: coffee_added_eq coffee_row_def eval_defs)

subsection \<open>Selling a product that has no row\<close>

text \<open>
  C5 (as amended). \<^verbatim>\<open>sell_item\<close> on an id that has no row in \<^verbatim>\<open>products\<close> returns at
  once (\<^verbatim>\<open>if not rows: return\<close>): the state is unchanged, and nothing is shown, neither
  a message box nor a status text. This holds whatever the storage does.
\<close>

theorem sell_item_absent:
  "find_product k (products s) = None \<Longrightarrow> sell_item f (Some k) q confirm now s = (s, Silent)"
  by (simp add: sell_item_def)

text \<open>
  On the new database no product has the id 7.
\<close>

theorem sell_item_absent_witness:
  "find_product 7 (products init_state) = None \<and>
   sell_item no_faults (Some 7) 1 True 0 init_state = (init_state, Silent)"
proof -
  have h: "find_product 7 (products init_state) = None"
    by (simp add: init_state_def find_product_def)
  from sell_item_absent [OF h] h show ?thesis by simp
qed

text \<open>
  C5 as stated asks for an error reported to the caller. With only the product 1 in the
  table, a sale of the id 2 reports nothing.
\<close>

theorem sell_item_absent_counterexample:
  "find_product 2 (products coffee_added) = None \<and>
   \<not> reported (snd (sell_item no_faults (Some 2) 1 True 0 coffee_added))"
  by (simp add: coffee_added_eq coffee_row_def sell_item_def find_product_def)

subsection \<open>Deleting a sales row by hand\<close>

lemma sids_refresh_list: "map sid (sales_log (refresh_list f s)) = map sid (sales_log s)"
  by (simp add: refresh_list_def sales_refresh_rows o_def)


lemma sids_set_null: "map sid (map (set_null k) xs) = map sid xs"
  by (simp add: set_null_def o_def)

lemma sales_undo_add:
  "sales_log (fst (undo_add f pl s)) =
     (if f TxUndoAdd then sales_log s
      else case p_product_id pl of None \<Rightarrow> sales_log s | Some k \<Rightarrow> map (set_null k) (sales_log s))"
  by (cases "p_product_id pl") (simp_all add: undo_add_def)

lemma sales_undo_sell:
  "sales_log (fst (undo_sell f pl s)) =
     (if f TxUndoSellUpdate then sales_log s
      else case p_sales_log_id pl of
             None \<Rightarrow> sales_log s
           | Some i \<Rightarrow>
               if i = 0 then sales_log s
               else if \<not> f TxUndoSellDelete then filter (\<lambda>r. sid r \<noteq> i) (sales_log s)
               else if f TxUndoSellFallback then sales_log s
               else (case matching_sale (p_product_id pl) (get_or (p_qty pl) 1) (sales_log s) of
                       None \<Rightarrow> sales_log s
                     | Some row \<Rightarrow> filter (\<lambda>r. sid r \<noteq> sid row) (sales_log s)))"
  by (cases "p_prev_qty pl"; cases "p_prev_sold pl")
     (simp_all add: undo_sell_def Let_def split: option.splits)

lemma sales_undo_delete:
  "sales_log (fst (undo_delete f pl s)) = sales_log s"
  by (auto simp: undo_delete_def Let_def insert_product_def split: option.splits)

lemma sids_compensate:
  "set (map sid (sales_log (fst (compensate f e s)))) \<subseteq> set (map sid (sales_log s))"
  unfolding compensate_def
  by (auto simp: sales_undo_add sales_undo_sell sales_undo_delete set_null_def
      split: option.splits)

lemma sids_undo_last:
  "set (map sid (sales_log (fst (undo_last f s)))) \<subseteq> set (map sid (sales_log s))"
proof (cases "pop_undo_db f s")
  case (Pair s1 eo)
  have s1: "sales_log s1 = sales_log s"
    using Pair by (auto simp: pop_undo_db_def split: if_splits option.splits)
  show ?thesis
  proof (cases eo)
    case None
    with Pair s1 show ?thesis by (simp add: undo_last_def)
  next
    case (Some e)
    have "fst (undo_last f s) = refresh_list f (fst (compensate f e s1))"
      using Pair Some by (simp add: undo_last_def split: prod.splits)
    then show ?thesis
      using sids_compensate [of f e s1] sids_refresh_list [of f "fst (compensate f e s1)"] s1
      by (metis set_map)
  qed
qed

lemma length_filter_distinct:
  "distinct (map sid xs) \<Longrightarrow> length xs \<le> length (filter (\<lambda>r. sid r \<noteq> i) xs) + 1"
proof (induction xs)
  case Nil
  then show ?case by simp
next
  case (Cons x xs)
  show ?case
  proof (cases "sid x = i")
    case True
    with Cons.prems have "\<forall>y \<in> set xs. sid y \<noteq> i"
      by (auto simp: image_iff)
    then have "filter (\<lambda>r. sid r \<noteq> i) xs = xs"
      by (intro filter_True) simp
    with True show ?thesis by simp
  next
    case False
    with Cons show ?thesis by simp
  qed
qed

text \<open>
  C10. \<^verbatim>\<open>_delete_sales_record\<close> leaves the products, the undo stack and its mirror as
  they are, whatever the selection, the answer and the storage do; with the row \<open>k\<close>
  selected it removes from \<^verbatim>\<open>sales_log\<close> the rows with the id \<open>k\<close> when the user
  confirms and the delete does not fail, and nothing otherwise; the ids being distinct,
  that is at most one row. And \<^verbatim>\<open>undo_last\<close> never adds a row to \<^verbatim>\<open>sales_log\<close>: the ids
  after it are among the ids before it, so a row once deleted does not come back.
\<close>

theorem delete_sales_record_frame:
  "products (fst (delete_sales_record f sel confirm s)) = products s \<and>
   undo_stack (fst (delete_sales_record f sel confirm s)) = undo_stack s \<and>
   mirror (fst (delete_sales_record f sel confirm s)) = mirror s \<and>
   sales_log (fst (delete_sales_record f (Some k) confirm s)) =
     (if confirm \<and> \<not> f TxDeleteSale then filter (\<lambda>r. sid r \<noteq> k) (sales_log s) else sales_log s) \<and>
   (distinct (map sid (sales_log s)) \<longrightarrow>
      length (sales_log s) \<le> length (sales_log (fst (delete_sales_record f sel confirm s))) + 1) \<and>
   set (map sid (sales_log (fst (undo_last f' t)))) \<subseteq> set (map sid (sales_log t))"
  using length_filter_distinct [of "sales_log s"] sids_undo_last [of f' t]
  by (auto simp: delete_sales_record_def split: option.splits)


theorem delete_sales_record_frame_witness:
  "distinct (map sid (sales_log coffee_sold_twice)) \<and>
   products (fst (delete_sales_record no_faults (Some 2) True coffee_sold_twice)) =
     products coffee_sold_twice \<and>
   undo_stack (fst (delete_sales_record no_faults (Some 2) True coffee_sold_twice)) =
     undo_stack coffee_sold_twice \<and>
   map sid (sales_log (fst (delete_sales_record no_faults (Some 2) True coffee_sold_twice))) = [1] \<and>
   length (sales_log coffee_sold_twice) = 2"
proof -
  have d: "distinct (map sid (sales_log coffee_sold_twice))"
    by (simp add: coffee_sold_twice_eq)
  show ?thesis
    using delete_sales_record_frame [of no_faults "Some 2" True coffee_sold_twice 2 no_faults coffee_sold_twice] d
    by (simp add: no_faults_simp coffee_sold_twice_eq)
qed

subsection \<open>The stock never goes below zero\<close>

lemma products_refresh_list:
  "products (refresh_list f s) = filter (\<lambda>r. pid r \<notin> cleaned f (fetch_rows s)) (products s)"
  by (simp add: refresh_list_def products_refresh_rows)






subsection \<open>Undoing a sale whose product is gone\<close>

lemma map_id_absent:
  "find_product k ps = None \<Longrightarrow> map (\<lambda>r. if pid r = k then g r else r) ps = ps"
  by (induction ps) (auto simp: find_product_def split: if_splits)

lemma products_undo_sell:
  "products (fst (undo_sell f pl s)) =
     (if f TxUndoSellUpdate then products s
      else case (p_prev_qty pl, p_prev_sold pl) of
             (Some pq, Some ps) \<Rightarrow>
               map (\<lambda>r. if Some (pid r) = p_product_id pl then r\<lparr>qty := pq, sold_qty := ps\<rparr> else r)
                 (products s)
           | _ \<Rightarrow>
               map (\<lambda>r. if Some (pid r) = p_product_id pl
                         then r\<lparr>qty := qty r + get_or (p_qty pl) 1,
                                sold_qty := max (sold_qty r - get_or (p_qty pl) 1) 0\<rparr>
                         else r)
                 (products s))"
  by (cases "p_prev_qty pl"; cases "p_prev_sold pl")
     (simp_all add: undo_sell_def Let_def split: option.splits)

lemma outcome_undo_sell:
  "snd (undo_sell f pl s) = (if f TxUndoSellUpdate then Err_UndoFailed else Status_UndoSell)"
  by (simp add: undo_sell_def Let_def)

text \<open>
  C9. \<^verbatim>\<open>undo_last\<close> on a \<^verbatim>\<open>SELL\<close> entry whose product has no row any more, with no
  storage failure: the \<^verbatim>\<open>UPDATE\<close> matches nothing and the products stay as they are,
  the sales row with the saved id is deleted, the entry is gone from the undo stack, and
  the status line reports the sale as undone. The state is one that a refresh has left.
\<close>

theorem undo_sell_product_gone:
  assumes top: "top_by uid (undo_stack s) = Some e" and act: "action e = ''SELL''"
    and k: "p_product_id (upayload e) = Some k" and gone: "find_product k (products s) = None"
    and i: "p_sales_log_id (upayload e) = Some i" "i \<noteq> 0"
    and st: "settled s"
  shows "products (fst (undo_last no_faults s)) = products s \<and>
         sales_log (fst (undo_last no_faults s)) = filter (\<lambda>r. sid r \<noteq> i) (sales_log s) \<and>
         undo_stack (fst (undo_last no_faults s)) = filter (\<lambda>x. uid x \<noteq> uid e) (undo_stack s) \<and>
         snd (undo_last no_faults s) = Status_UndoSell"
proof -
  define s1 where "s1 = s\<lparr>undo_stack := filter (\<lambda>x. uid x \<noteq> uid e) (undo_stack s),
                           mirror := pop_mirror (uid e) (mirror s)\<rparr>"
  define u where "u = fst (undo_sell no_faults (upayload e) s1)"
  have comp: "compensate no_faults e s1 = undo_sell no_faults (upayload e) s1"
    using act by (simp add: compensate_def)
  have undo: "undo_last no_faults s = (refresh_list no_faults u, snd (undo_sell no_faults (upayload e) s1))"
    unfolding u_def s1_def comp [unfolded s1_def, symmetric]
    by (rule undo_last_top [OF no_faults_simp top])
  have Pu: "products u = products s"
    unfolding u_def products_undo_sell
    using gone by (simp add: k s1_def no_faults_simp map_id_absent split: option.splits)
  have Su: "sales_log u = filter (\<lambda>r. sid r \<noteq> i) (sales_log s)"
    unfolding u_def sales_undo_sell using i by (simp add: s1_def no_faults_simp)
  have Uu: "undo_stack u = filter (\<lambda>x. uid x \<noteq> uid e) (undo_stack s)"
    unfolding u_def comp [symmetric] by (simp add: s1_def)
  have Vu: "var_search u = var_search s"
    unfolding u_def comp [symmetric] by (simp add: s1_def)
  have st_u: "settled u"
    using st settled_cong [OF Pu Vu] by simp
  show ?thesis
    unfolding undo fst_conv snd_conv settled_refresh_fields [OF st_u] Pu Su outcome_undo_sell
    by (simp add: Uu no_faults_simp)
qed


text \<open>
  The tea sold out: the refresh has deleted its row, and the entry of the sale is on top.
\<close>

theorem undo_sell_product_gone_witness:
  "top_by uid (undo_stack tea_sold) = Some tea_sell_entry \<and>
   find_product 1 (products tea_sold) = None \<and> settled tea_sold \<and>
   products (fst (undo_last no_faults tea_sold)) = [] \<and>
   sales_log (fst (undo_last no_faults tea_sold)) = [] \<and>
   map uid (undo_stack (fst (undo_last no_faults tea_sold))) = [1] \<and>
   snd (undo_last no_faults tea_sold) = Status_UndoSell"
proof -
  have top: "top_by uid (undo_stack tea_sold) = Some tea_sell_entry"
    by (simp add: tea_sold_eq tea_sell_entry_def)
  have h: "action tea_sell_entry = ''SELL''" "p_product_id (upayload tea_sell_entry) = Some 1"
    "find_product 1 (products tea_sold) = None"
    "p_sales_log_id (upayload tea_sell_entry) = Some 1" "(1::int) \<noteq> 0" "settled tea_sold"
    by (simp_all add: tea_sell_entry_def tea_sold_eq find_product_def settled_def)
  have e: "products tea_sold = []" "filter (\<lambda>r. sid r \<noteq> 1) (sales_log tea_sold) = []"
    "map uid (filter (\<lambda>x. uid x \<noteq> uid tea_sell_entry) (undo_stack tea_sold)) = [1]"
    by (simp_all add: tea_sold_eq tea_sell_entry_def)
  show ?thesis
    using undo_sell_product_gone [OF top h] top h(3,6) e by simp
qed

subsection \<open>Which sales rows the undo of a sale removes\<close>

lemma filter_map_sid:
  "filter (\<lambda>j. j \<noteq> i) (map sid xs) = map sid (filter (\<lambda>r. sid r \<noteq> i) xs)"
  by (simp add: filter_map o_def)

text \<open>
  C6 (as amended). \<^verbatim>\<open>undo_last\<close> on a \<^verbatim>\<open>SELL\<close> entry, once popped. When the product
  update and the \<^verbatim>\<open>DELETE\<close> by the saved id do not raise, the sales rows that remain are
  those with another id: if no row has the saved id, none is removed, and no other row
  is looked for. The row of the same product and quantity with the latest timestamp is
  removed only when the \<^verbatim>\<open>DELETE\<close> by id raises and the fallback does not. In every
  case at most one sales row is removed (the ids being distinct).
\<close>

theorem undo_sell_sales_rows:
  assumes top: "top_by uid (undo_stack s) = Some e" and act: "action e = ''SELL''"
    and pop: "\<not> f TxPopUndo" and d: "distinct (map sid (sales_log s))"
  shows "(\<not> f TxUndoSellUpdate \<and> \<not> f TxUndoSellDelete \<and>
          p_sales_log_id (upayload e) = Some i \<and> i \<noteq> 0 \<longrightarrow>
            map sid (sales_log (fst (undo_last f s))) = filter (\<lambda>j. j \<noteq> i) (map sid (sales_log s))) \<and>
         (\<not> f TxUndoSellUpdate \<and> f TxUndoSellDelete \<and> \<not> f TxUndoSellFallback \<and>
          p_sales_log_id (upayload e) = Some i \<and> i \<noteq> 0 \<longrightarrow>
            map sid (sales_log (fst (undo_last f s))) =
              (case matching_sale (p_product_id (upayload e)) (get_or (p_qty (upayload e)) 1)
                      (sales_log s) of
                 None \<Rightarrow> map sid (sales_log s)
               | Some row \<Rightarrow> filter (\<lambda>j. j \<noteq> sid row) (map sid (sales_log s)))) \<and>
         length (sales_log s) \<le> length (sales_log (fst (undo_last f s))) + 1"
proof -
  define s1 where "s1 = s\<lparr>undo_stack := filter (\<lambda>x. uid x \<noteq> uid e) (undo_stack s),
                           mirror := pop_mirror (uid e) (mirror s)\<rparr>"
  define u where "u = fst (undo_sell f (upayload e) s1)"
  have comp: "compensate f e s1 = undo_sell f (upayload e) s1"
    using act by (simp add: compensate_def)
  have undo: "undo_last f s = (refresh_list f u, snd (undo_sell f (upayload e) s1))"
    unfolding u_def s1_def comp [unfolded s1_def, symmetric]
    by (rule undo_last_top [where f = f, OF pop top])
  have ids: "map sid (sales_log (fst (undo_last f s))) = map sid (sales_log u)"
    by (simp add: undo sids_refresh_list)
  have S1: "sales_log s1 = sales_log s"
    by (simp add: s1_def)
  have Su: "sales_log u =
     (if f TxUndoSellUpdate then sales_log s
      else case p_sales_log_id (upayload e) of
             None \<Rightarrow> sales_log s
           | Some i \<Rightarrow>
               if i = 0 then sales_log s
               else if \<not> f TxUndoSellDelete then filter (\<lambda>r. sid r \<noteq> i) (sales_log s)
               else if f TxUndoSellFallback then sales_log s
               else (case matching_sale (p_product_id (upayload e)) (get_or (p_qty (upayload e)) 1)
                            (sales_log s) of
                       None \<Rightarrow> sales_log s
                     | Some row \<Rightarrow> filter (\<lambda>r. sid r \<noteq> sid row) (sales_log s)))"
    unfolding u_def sales_undo_sell S1 by (rule refl)
  have len: "length (sales_log s) \<le> length (sales_log u) + 1"
    unfolding Su using length_filter_distinct [OF d] by (simp split: option.splits)
  have len': "length (sales_log (fst (undo_last f s))) = length (sales_log u)"
    using arg_cong [OF ids, of length] by simp
  show ?thesis
    unfolding ids len' using len by (simp add: Su filter_map_sid split: option.splits)
qed


text \<open>
  With the second sales row deleted by hand, undoing the second sale removes no row; when
  the \<^verbatim>\<open>DELETE\<close> by id raises, the fallback removes the first sale.
\<close>

theorem undo_sell_sales_rows_witness:
  "top_by uid (undo_stack sale_two_removed) = Some second_sell_entry \<and>
   action second_sell_entry = ''SELL'' \<and>
   distinct (map sid (sales_log sale_two_removed)) \<and>
   map sid (sales_log sale_two_removed) = [1] \<and>
   map sid (sales_log (fst (undo_last no_faults sale_two_removed))) = [1] \<and>
   matching_sale (Some 1) 3 (sales_log sale_two_removed) = Some first_sale \<and>
   map sid (sales_log (fst (undo_last (only_fault TxUndoSellDelete) sale_two_removed))) = []"
proof -
  have top: "top_by uid (undo_stack sale_two_removed) = Some second_sell_entry"
    by (simp add: sale_two_removed_eq second_sell_entry_def)
  have act: "action second_sell_entry = ''SELL''"
    by (simp add: second_sell_entry_def)
  have d: "distinct (map sid (sales_log sale_two_removed))"
    by (simp add: sale_two_removed_eq)
  have m: "matching_sale (Some 1) 3 (sales_log sale_two_removed) = Some first_sale"
    by (simp add: sale_two_removed_eq matching_sale_def first_sale_def)
  have pl: "p_sales_log_id (upayload second_sell_entry) = Some 2"
    "p_product_id (upayload second_sell_entry) = Some 1"
    "get_or (p_qty (upayload second_sell_entry)) 1 = 3"
    "map sid (sales_log sale_two_removed) = [1]" "sid first_sale = 1"
    by (simp_all add: second_sell_entry_def get_or_def sale_two_removed_eq first_sale_def)
  show ?thesis
    using undo_sell_sales_rows [where f = no_faults and i = 2, OF top act no_faults_simp d]
      undo_sell_sales_rows [where f = "only_fault TxUndoSellDelete" and i = 2, OF top act _ d]
      top act d m pl
    by (simp add: no_faults_simp only_fault_def)
qed

text \<open>
  C6 as stated fails: the saved id 2 has no row, the first sale is the most recent row of
  the same product and quantity, and \<^verbatim>\<open>undo_last\<close> leaves it in the table.
\<close>

theorem undo_sell_missing_row_counterexample:
  "top_by uid (undo_stack sale_two_removed) = Some second_sell_entry \<and>
   p_sales_log_id (upayload second_sell_entry) = Some 2 \<and>
   find (\<lambda>r. sid r = 2) (sales_log sale_two_removed) = None \<and>
   matching_sale (p_product_id (upayload second_sell_entry))
     (get_or (p_qty (upayload second_sell_entry)) 1) (sales_log sale_two_removed) = Some first_sale \<and>
   sales_log (fst (undo_last no_faults sale_two_removed)) = [first_sale]"
  by (simp add: sale_two_removed_eq second_sell_entry_def first_sale_def coffee_row_def eval_defs)

subsection \<open>Deleting a product and undoing the deletion\<close>

lemma find_product_filter_set:
  "find_product k (filter (\<lambda>r. pid r \<notin> C) ps) = (if k \<in> C then None else find_product k ps)"
  by (induction ps) (auto simp: find_product_def)

lemma cleaned_subset:
  "j \<in> cleaned f (fetch_rows t) \<Longrightarrow> \<exists>x \<in> set (products t). pid x = j \<and> qty x \<le> 0"
  by (auto simp: cleaned_def set_fetch_rows)

lemma refresh_keeps:
  assumes "\<forall>x \<in> set (products t). pid x = k \<longrightarrow> 0 < qty x"
  shows "find_product k (products (refresh_list f t)) = find_product k (products t)"
proof -
  have "k \<notin> cleaned f (fetch_rows t)"
    using assms cleaned_subset [of k f t] by fastforce
  then show ?thesis
    by (simp add: products_refresh_list find_product_filter_set)
qed







subsection \<open>Adding a product and undoing the addition\<close>

lemma add_product_commits:
  assumes "nm \<noteq> []" "\<not> f TxInsertProduct"
  shows "add_product f nm (Numeric q) (Numeric b) (Numeric sl) s =
     (refresh_list f
        (push_undo f ''ADD''
           (empty_payload\<lparr>p_product_id := Some (next_rowid (products_seq s) (map pid (products s)))\<rparr>)
           (log_action f ''ADD''
              (s\<lparr>products := products s @
                     [\<lparr>pid = next_rowid (products_seq s) (map pid (products s)), name = nm,
                       qty = q, buy_price = b, sell_price = sl, sold_qty = 0\<rparr>],
                  products_seq := next_rowid (products_seq s) (map pid (products s))\<rparr>))),
      Status_Added)"
  using assms by (simp add: add_product_def Let_def)

text \<open>
  C8. \<^verbatim>\<open>add_product\<close> with a name and three integers, and \<^verbatim>\<open>undo_last\<close> next, with no
  storage failure, from a state that a refresh has left: the table of products is the
  one before the add, row for row.
\<close>

theorem add_then_undo:
  assumes nm: "nm \<noteq> []" and st: "settled s"
  shows "products (fst (undo_last no_faults
           (fst (add_product no_faults nm (Numeric q) (Numeric b) (Numeric sl) s)))) = products s"
proof -
  define n where "n = next_rowid (products_seq s) (map pid (products s))"
  define row where "row = \<lparr>pid = n, name = nm, qty = q, buy_price = b, sell_price = sl, sold_qty = 0\<rparr>"
  define pl where "pl = empty_payload\<lparr>p_product_id := Some n\<rparr>"
  define t where "t = push_undo no_faults ''ADD'' pl
     (log_action no_faults ''ADD'' (s\<lparr>products := products s @ [row], products_seq := n\<rparr>))"
  define e where "e = \<lparr>uid = next_rowid (undo_seq s) (map uid (undo_stack s)), action = ''ADD'',
     upayload = pl\<rparr>"
  define s' where "s' = refresh_list no_faults t"
  have add: "fst (add_product no_faults nm (Numeric q) (Numeric b) (Numeric sl) s) = s'"
    using add_product_commits [where f = no_faults, OF nm no_faults_simp, where q = q and b = b and sl = sl and s = s]
    by (simp add: s'_def t_def pl_def row_def n_def)
  have Pt: "products t = products s @ [row]" and Vt: "var_search t = var_search s"
    by (simp_all add: t_def log_action_def)
  have fresh: "\<forall>x \<in> set (products s). pid x \<noteq> n"
    unfolding n_def using next_rowid_fresh [of _ "map pid (products s)" "products_seq s"] by fastforce
  have C: "\<forall>x \<in> set (products s). pid x \<notin> cleaned no_faults (fetch_rows t)"
  proof
    fix x assume x: "x \<in> set (products s)"
    show "pid x \<notin> cleaned no_faults (fetch_rows t)"
    proof
      assume "pid x \<in> cleaned no_faults (fetch_rows t)"
      then obtain y where y: "y \<in> set (products t)" "listed (var_search t) y" "qty y \<le> 0"
        "pid y = pid x"
        by (auto simp: cleaned_def set_fetch_rows)
      from y(1) have "y \<in> set (products s) \<or> y = row" by (auto simp: Pt)
      then show False
      proof
        assume "y \<in> set (products s)"
        with st y(2,3) show False by (auto simp: settled_def Vt)
      next
        assume "y = row"
        with y(4) fresh x show False by (auto simp: row_def)
      qed
    qed
  qed
  have top: "top_by uid (undo_stack s') = Some e"
    by (simp add: s'_def t_def e_def top_by_pushed [OF no_faults_simp] log_action_def)
  define s1 where "s1 = s'\<lparr>undo_stack := filter (\<lambda>x. uid x \<noteq> uid e) (undo_stack s'),
     mirror := pop_mirror (uid e) (mirror s')\<rparr>"
  define u where "u = fst (undo_add no_faults pl s1)"
  have comp: "compensate no_faults e s1 = undo_add no_faults pl s1"
    by (simp add: compensate_def e_def)
  have undo: "fst (undo_last no_faults s') = refresh_list no_faults u"
    by (simp only: undo_last_top [OF no_faults_simp top] u_def s1_def [symmetric] comp fst_conv)
  have Ps1: "products s1 = filter (\<lambda>r. pid r \<notin> cleaned no_faults (fetch_rows t)) (products s @ [row])"
    by (simp add: s1_def s'_def products_refresh_list Pt)
  have "products u = filter (\<lambda>r. pid r \<noteq> n) (products s1)"
    by (simp add: u_def undo_add_def pl_def empty_payload_def no_faults_simp)
  also have "\<dots> = products s"
    unfolding Ps1 using fresh C by (simp add: row_def filter_id_conv)
  finally have Pu: "products u = products s" .
  have Vu: "var_search u = var_search s"
    unfolding u_def comp [symmetric] by (simp add: s1_def s'_def Vt)
  have st_u: "settled u"
    using st settled_cong [OF Pu Vu] by simp
  show ?thesis
    unfolding add undo settled_refresh_fields [OF st_u] Pu by (rule refl)
qed


text \<open>
  Tea, and a product with no stock (which the refresh after the add already deletes),
  each added beside the coffee and undone.
\<close>

theorem add_then_undo_witness:
  "settled coffee_added \<and> products coffee_added = [coffee_row] \<and>
   products (fst (undo_last no_faults
     (fst (add_product no_faults ''Tea'' (Numeric 2) (Numeric 500) (Numeric 800) coffee_added)))) =
     [coffee_row] \<and>
   products (fst (undo_last no_faults
     (fst (add_product no_faults ''Cup'' (Numeric 0) (Numeric 5) (Numeric 9) coffee_added)))) =
     [coffee_row]"
proof -
  have nm: "''Tea'' \<noteq> []" "''Cup'' \<noteq> []" by simp_all
  have p: "products coffee_added = [coffee_row]"
    by (simp add: coffee_added_eq)
  show ?thesis
    using add_then_undo [OF nm(1) coffee_added_settled, of 2 500 800]
      add_then_undo [OF nm(2) coffee_added_settled, of 0 5 9] coffee_added_settled p
    by simp
qed

subsection \<open>The transactions of a command\<close>











subsection \<open>The tea scenario\<close>

text \<open>
  C4 (as amended). Add("Tea", 2, 500, 800) on a new database, then 5 asked for and the
  cap confirmed: the command reports 2 sold, the undo entry records a sale of 2 from a
  stock of 2 with 0 sold before, and the sales table has one row of quantity 2 and profit
  600, its product reference unset: the table of products is empty, for the refresh that
  ends the sale has deleted the row, whose quantity the sale had set to 0. The row with
  quantity 0 and 2 sold is what remains when that delete fails.
\<close>

theorem tea_sold_out:
  "sell_item no_faults (Some 1) 5 True 0 tea_added = (tea_sold, Status_Sold 2) \<and>
   top_by uid (undo_stack tea_sold) = Some tea_sell_entry \<and>
   sales_log tea_sold =
     [\<lparr>sid = 1, product_id = None, sale_qty = 2, price_buy = 500, price_sell = 800, profit = 600,
       timestamp = 0\<rparr>] \<and>
   products tea_sold = [] \<and>
   products tea_stuck = [tea_row\<lparr>qty := 0, sold_qty := 2\<rparr>]"
proof -
  have "snd (sell_item no_faults (Some 1) 5 True 0 tea_added) = Status_Sold 2"
    by (simp add: tea_added_eq eval_defs)
  then have "sell_item no_faults (Some 1) 5 True 0 tea_added = (tea_sold, Status_Sold 2)"
    by (simp add: tea_sold_def prod_eq_iff)
  then show ?thesis
    using tea_stuck_eq by (simp add: tea_sold_eq tea_sell_entry_def)
qed

text \<open>
  C4 as stated expects a row with quantity 0 for the product; there is no row.
\<close>

theorem tea_sold_out_counterexample:
  "find_product 1 (products tea_added) = Some tea_row \<and>
   find_product 1 (products (fst (sell_item no_faults (Some 1) 5 True 0 tea_added))) = None"
  by (simp add: tea_added_eq tea_row_def eval_defs)

subsection \<open>The hypotheses of the theorems are invariants\<close>

text \<open>
  The theorems above assume of the state what the program maintains: a refresh that does
  not fail leaves nothing to clean up (\<open>settled\<close>); the list shows only rows that exist
  with a positive quantity (\<open>view_ok\<close>); the ids of a table are distinct; the counter of
  the sales ids is not negative. Each holds on the new database and is kept by every
  command.
\<close>

lemma tree_refresh_rows:
  "tree (refresh_rows f flt rs s) =
     tree s @ map pid (filter (\<lambda>r. 0 < qty r \<and> \<not> (flt = Below5 \<and> 5 \<le> qty r)) rs)"
  by (induction rs arbitrary: s) auto

lemma tree_refresh_list:
  "tree (refresh_list f s) =
     map pid (filter (\<lambda>r. 0 < qty r \<and> \<not> (var_filter s = Below5 \<and> 5 \<le> qty r)) (fetch_rows s))"
  by (simp add: refresh_list_def tree_refresh_rows)

lemma refresh_list_settled:
  assumes "\<And>k. \<not> f (TxCleanup k)"
  shows "settled (refresh_list f s)"
  unfolding settled_def
proof (intro ballI impI)
  fix r assume r: "r \<in> set (products (refresh_list f s))"
    and l: "listed (var_search (refresh_list f s)) r"
  from r have mem: "r \<in> set (products s)" and keep: "pid r \<notin> cleaned f (fetch_rows s)"
    by (simp_all add: products_refresh_list)
  from mem l have "r \<in> set (fetch_rows s)"
    by (simp add: set_fetch_rows)
  with keep assms show "0 < qty r"
    by (fastforce simp: cleaned_def)
qed

lemma find_product_distinct:
  "distinct (map pid ps) \<Longrightarrow> x \<in> set ps \<Longrightarrow> find_product (pid x) ps = Some x"
  by (induction ps) (auto simp: find_product_def image_iff)

lemma refresh_list_view_ok:
  assumes d: "distinct (map pid (products s))"
  shows "view_ok (refresh_list f s)"
  unfolding view_ok_def
proof
  fix k assume "k \<in> set (tree (refresh_list f s))"
  then obtain x where x: "x \<in> set (products s)" "pid x = k" "0 < qty x"
    by (auto simp: tree_refresh_list set_fetch_rows)
  have only: "\<forall>y \<in> set (products s). pid y = k \<longrightarrow> 0 < qty y"
  proof (intro ballI impI)
    fix y assume "y \<in> set (products s)" "pid y = k"
    with d x have "y = x"
      by (metis distinct_map inj_onD)
    with x show "0 < qty y" by simp
  qed
  have "find_product k (products (refresh_list f s)) = find_product k (products s)"
    by (rule refresh_keeps [OF only])
  with find_product_distinct [OF d x(1)] x
  show "\<exists>r. find_product k (products (refresh_list f s)) = Some r \<and> 0 < qty r"
    by simp
qed

lemma init_state_invariants:
  "settled init_state" "view_ok init_state" "0 \<le> sales_seq init_state"
  "distinct (map pid (products init_state))" "distinct (map sid (sales_log init_state))"
  by (simp_all add: init_state_def settled_def view_ok_def)

lemma settled_add_product: "settled s \<Longrightarrow> settled (fst (add_product no_faults nm q b sl s))"
  by (cases q; cases b; cases sl)
     (simp_all add: add_product_def Let_def refresh_list_settled no_faults_simp)

lemma settled_sell_item: "settled s \<Longrightarrow> settled (fst (sell_item no_faults sel n confirm now s))"
  by (simp add: sell_item_def Let_def refresh_list_settled no_faults_simp split: option.splits)

lemma settled_delete_item: "settled s \<Longrightarrow> settled (fst (delete_item no_faults sel confirm s))"
  by (simp add: delete_item_def Let_def refresh_list_settled no_faults_simp split: option.splits)

lemma settled_undo_last: "settled s \<Longrightarrow> settled (fst (undo_last no_faults s))"
proof (cases "pop_undo_db no_faults s")
  case (Pair s1 eo)
  assume st: "settled s"
  show ?thesis
  proof (cases eo)
    case None
    then have "s1 = s"
      using Pair by (auto simp: pop_undo_db_def split: if_splits option.splits)
    with None Pair st show ?thesis by (simp add: undo_last_def)
  next
    case (Some e)
    with Pair show ?thesis
      by (simp add: undo_last_def refresh_list_settled no_faults_simp split: prod.splits)
  qed
qed

lemma settled_delete_sales_record:
  "settled s \<Longrightarrow> settled (fst (delete_sales_record f sel confirm s))"
  by (simp add: delete_sales_record_def settled_def log_action_def split: option.splits)

lemma sales_seq_sell_item:
  "0 \<le> sales_seq s \<Longrightarrow> 0 \<le> sales_seq (fst (sell_item f sel n confirm now s))"
  using next_rowid_seq [of "sales_seq s" "map sid (sales_log s)"]
  by (simp add: sell_item_def Let_def split: option.splits)

lemma sales_seq_others:
  "sales_seq (fst (add_product f nm q b sl s)) = sales_seq s"
  "sales_seq (fst (delete_item f sel confirm s)) = sales_seq s"
  "sales_seq (fst (undo_last f s)) = sales_seq s"
  "sales_seq (fst (delete_sales_record f sel confirm s)) = sales_seq s"
proof -
  show "sales_seq (fst (add_product f nm q b sl s)) = sales_seq s"
    by (cases q; cases b; cases sl) (simp_all add: add_product_def Let_def log_action_def)
  show "sales_seq (fst (delete_item f sel confirm s)) = sales_seq s"
    by (simp add: delete_item_def Let_def split: option.splits)
  show "sales_seq (fst (undo_last f s)) = sales_seq s"
  proof (cases "pop_undo_db f s")
    case (Pair s1 eo)
    have s1: "sales_seq s1 = sales_seq s"
      using Pair by (auto simp: pop_undo_db_def split: if_splits option.splits)
    show ?thesis
    proof (cases eo)
      case None
      with Pair s1 show ?thesis by (simp add: undo_last_def)
    next
      case (Some e)
      have "fst (undo_last f s) = refresh_list f (fst (compensate f e s1))"
        using Pair Some by (simp add: undo_last_def split: prod.splits)
      with s1 show ?thesis by simp
    qed
  qed
  show "sales_seq (fst (delete_sales_record f sel confirm s)) = sales_seq s"
    by (simp add: delete_sales_record_def log_action_def split: option.splits)
qed


lemma distinct_refresh_list:
  "distinct (map pid (products t)) \<Longrightarrow> distinct (map pid (products (refresh_list f t)))"
  by (simp add: products_refresh_list distinct_map_filter)

lemma view_ok_same:
  "products s' = products s \<Longrightarrow> tree s' = tree s \<Longrightarrow> view_ok s \<Longrightarrow> view_ok s'"
  by (simp add: view_ok_def)

lemma pids_map_if:
  "(\<And>r. pid (g r) = pid r) \<Longrightarrow> map pid (map (\<lambda>r. if P r then g r else r) ps) = map pid ps"
  by (induction ps) simp_all

lemma distinct_snoc_fresh:
  "distinct (map pid ps) \<Longrightarrow> pid r = next_rowid seq (map pid ps) \<Longrightarrow> distinct (map pid (ps @ [r]))"
  using next_rowid_fresh [of _ "map pid ps" seq] by fastforce

text \<open>Every command either leaves the table and the list alone or ends in a refresh.\<close>

lemma add_product_shape:
  "(products (fst (add_product f nm q b sl s)) = products s \<and>
    tree (fst (add_product f nm q b sl s)) = tree s) \<or>
   (\<exists>t. fst (add_product f nm q b sl s) = refresh_list f t \<and>
        (distinct (map pid (products s)) \<longrightarrow> distinct (map pid (products t))))"
proof (cases "nm \<noteq> [] \<and> \<not> f TxInsertProduct \<and> (\<exists>qi bi si. q = Numeric qi \<and> b = Numeric bi \<and> sl = Numeric si)")
  case True
  then obtain qi bi si where n: "q = Numeric qi" "b = Numeric bi" "sl = Numeric si" by blast
  define row where "row = \<lparr>pid = next_rowid (products_seq s) (map pid (products s)), name = nm,
                       qty = qi, buy_price = bi, sell_price = si, sold_qty = 0\<rparr>"
  define t where "t = push_undo f ''ADD''
           (empty_payload\<lparr>p_product_id := Some (next_rowid (products_seq s) (map pid (products s)))\<rparr>)
           (log_action f ''ADD''
              (s\<lparr>products := products s @ [row],
                  products_seq := next_rowid (products_seq s) (map pid (products s))\<rparr>))"
  have d: "distinct (map pid (products s)) \<longrightarrow> distinct (map pid (products t))"
    using distinct_snoc_fresh [of "products s" row "products_seq s"]
    by (simp add: t_def log_action_def row_def)
  have "fst (add_product f nm q b sl s) = refresh_list f t"
    using True n add_product_commits [where f = f and nm = nm and q = qi and b = bi and sl = si and s = s]
    by (simp add: t_def row_def)
  with d show ?thesis by blast
next
  case False
  then have "fst (add_product f nm q b sl s) = s"
    by (cases q; cases b; cases sl) (auto simp: add_product_def)
  then show ?thesis by simp
qed

lemma sell_item_shape:
  "(products (fst (sell_item f sel n confirm now s)) = products s \<and>
    tree (fst (sell_item f sel n confirm now s)) = tree s) \<or>
   (\<exists>t. fst (sell_item f sel n confirm now s) = refresh_list f t \<and>
        (distinct (map pid (products s)) \<longrightarrow> distinct (map pid (products t))))"
proof (cases "\<exists>k r. sel = Some k \<and> find_product k (products s) = Some r \<and> 0 < qty r \<and>
    \<not> ((if n < 1 then 1 else n) > qty r \<and> \<not> confirm) \<and> \<not> f TxSell")
  case True
  then obtain k r where h: "sel = Some k" "find_product k (products s) = Some r" "0 < qty r"
    "\<not> ((if n < 1 then 1 else n) > qty r \<and> \<not> confirm)" "\<not> f TxSell"
    by blast
  define q where "q = (if (if n < 1 then 1 else n) > qty r then qty r else (if n < 1 then 1 else n))"
  have q: "1 \<le> q" "q \<le> qty r"
    using h(3) by (auto simp: q_def)
  have eff: "sell_item f (Some k) n confirm now s = sell_item f (Some k) q confirm now s"
    using h by (auto simp: sell_item_def Let_def q_def)
  obtain t where t: "sell_item f (Some k) q confirm now s = (refresh_list f t, Status_Sold q)"
    "products t = map (\<lambda>x. if pid x = k then x\<lparr>qty := qty r - q, sold_qty := sold_qty r + q\<rparr> else x)
                    (products s)"
    "sales_log t = sales_log s @
        [\<lparr>sid = next_rowid (sales_seq s) (map sid (sales_log s)), product_id = Some k,
          sale_qty = q, price_buy = buy_price r, price_sell = sell_price r,
          profit = (sell_price r - buy_price r) * q, timestamp = now\<rparr>]"
    "undo_stack t = undo_stack (push_undo f ''SELL''
        (empty_payload\<lparr>p_product_id := Some k, p_qty := Some q, p_prev_qty := Some (qty r),
           p_prev_sold := Some (sold_qty r),
           p_sales_log_id := Some (next_rowid (sales_seq s) (map sid (sales_log s)))\<rparr>) s)"
    "var_search t = var_search s" "var_filter t = var_filter s"
    by (rule sell_item_commits [where f = f, OF h(2,3,5) q, where confirm = confirm and now = now])
  have "fst (sell_item f sel n confirm now s) = refresh_list f t \<and>
            map pid (products t) = map pid (products s)"
    by (simp add: h(1) eff t(1,2))
  then show ?thesis by auto
next
  case False
  then have F: "\<And>k r. sel = Some k \<Longrightarrow> find_product k (products s) = Some r \<Longrightarrow> 0 < qty r \<Longrightarrow>
      \<not> ((if n < 1 then 1 else n) > qty r \<and> \<not> confirm) \<Longrightarrow> f TxSell"
    by blast
  have "fst (sell_item f sel n confirm now s) = s"
  proof (cases sel)
    case None
    then show ?thesis by (simp add: sell_item_def)
  next
    case (Some k)
    show ?thesis
    proof (cases "find_product k (products s)")
      case None
      with Some show ?thesis by (simp add: sell_item_def)
    next
      case (Some r)
      with \<open>sel = Some k\<close> F [OF \<open>sel = Some k\<close> Some] show ?thesis
        by (cases "0 < qty r"; cases "(if n < 1 then 1 else n) > qty r \<and> \<not> confirm")
           (simp_all add: sell_item_def Let_def)
    qed
  qed
  then show ?thesis by simp
qed

lemma delete_item_shape:
  "(products (fst (delete_item f sel confirm s)) = products s \<and>
    tree (fst (delete_item f sel confirm s)) = tree s) \<or>
   (\<exists>t. fst (delete_item f sel confirm s) = refresh_list f t \<and>
        (distinct (map pid (products s)) \<longrightarrow> distinct (map pid (products t))))"
proof (cases "\<exists>k r. sel = Some k \<and> find_product k (products s) = Some r \<and> confirm \<and> \<not> f TxDeleteProduct")
  case True
  then obtain k r where h: "sel = Some k" "find_product k (products s) = Some r" "confirm"
    "\<not> f TxDeleteProduct"
    by blast
  have "\<exists>t. fst (delete_item f sel confirm s) = refresh_list f t \<and>
            products t = filter (\<lambda>x. pid x \<noteq> k) (products s)"
    using h unfolding delete_item_def Let_def
    by simp (intro exI conjI, rule refl, simp)
  then show ?thesis by (auto simp: distinct_map_filter)
next
  case False
  then show ?thesis
    unfolding delete_item_def Let_def by (auto split: option.splits)
qed

lemma distinct_insert_product:
  assumes "insert_product k d s = Some s'" "distinct (map pid (products s))"
  shows "distinct (map pid (products s'))"
proof -
  obtain nm where nm: "snap_name d = Some nm"
    using assms(1) by (cases "snap_name d") (simp_all add: insert_product_def)
  show ?thesis
  proof (cases k)
    case None
    then have "products s' =
        products s @ [saved_row (next_rowid (products_seq s) (map pid (products s))) nm d]"
      using assms(1) nm by (auto simp: insert_product_def Let_def)
    moreover have "pid (saved_row (next_rowid (products_seq s) (map pid (products s))) nm d) =
        next_rowid (products_seq s) (map pid (products s))"
      by (simp add: saved_row_def)
    ultimately show ?thesis
      using distinct_snoc_fresh [OF assms(2), of _ "products_seq s"] by simp
  next
    case (Some i)
    then have "i \<notin> set (map pid (products s)) \<and> products s' = products s @ [saved_row i nm d]"
      using assms(1) nm by (auto simp: insert_product_def split: if_splits)
    then show ?thesis
      using assms(2) by (simp add: saved_row_def)
  qed
qed

lemma distinct_compensate:
  assumes d: "distinct (map pid (products s))"
  shows "distinct (map pid (products (fst (compensate f e s))))"
proof -
  have a: "distinct (map pid (products (fst (undo_add f pl s))))" for pl
    using d by (cases "p_product_id pl") (simp_all add: undo_add_def distinct_map_filter)
  have b: "distinct (map pid (products (fst (undo_sell f pl s))))" for pl
  proof -
    have "map pid (products (fst (undo_sell f pl s))) = map pid (products s)"
      unfolding products_undo_sell
      by (auto split: option.splits intro!: pids_map_if simp del: map_map)
    with d show ?thesis by simp
  qed
  have c: "distinct (map pid (products (fst (undo_delete f pl s))))" for pl
    using d distinct_insert_product [of _ _ s]
    by (auto simp: undo_delete_def Let_def split: option.splits)
  show ?thesis
    using a b c d by (simp add: compensate_def)
qed

lemma undo_last_shape:
  "(products (fst (undo_last f s)) = products s \<and> tree (fst (undo_last f s)) = tree s) \<or>
   (\<exists>t. fst (undo_last f s) = refresh_list f t \<and>
        (distinct (map pid (products s)) \<longrightarrow> distinct (map pid (products t))))"
proof (cases "pop_undo_db f s")
  case (Pair s1 eo)
  have s1: "products s1 = products s" "tree s1 = tree s"
    using Pair by (auto simp: pop_undo_db_def split: if_splits option.splits)
  show ?thesis
  proof (cases eo)
    case None
    with Pair s1 show ?thesis by (simp add: undo_last_def)
  next
    case (Some e)
    have "fst (undo_last f s) = refresh_list f (fst (compensate f e s1))"
      using Pair Some by (simp add: undo_last_def split: prod.splits)
    moreover have "distinct (map pid (products s)) \<longrightarrow>
        distinct (map pid (products (fst (compensate f e s1))))"
      using distinct_compensate [of s1 f e] s1 by simp
    ultimately show ?thesis by blast
  qed
qed

lemma delete_sales_record_shape:
  "products (fst (delete_sales_record f sel confirm s)) = products s \<and>
   tree (fst (delete_sales_record f sel confirm s)) = tree s"
  by (simp add: delete_sales_record_def split: option.splits)

lemma shape_invariants:
  assumes "(products s' = products s \<and> tree s' = tree s) \<or>
     (\<exists>t. s' = refresh_list f t \<and> (distinct (map pid (products s)) \<longrightarrow> distinct (map pid (products t))))"
    and "distinct (map pid (products s))" "view_ok s"
  shows "distinct (map pid (products s')) \<and> view_ok s'"
  using assms refresh_list_view_ok distinct_refresh_list view_ok_same by metis

text \<open>
  The primary key of \<^verbatim>\<open>products\<close> and the agreement of the list with the table hold on
  the new database and after every command, whatever the storage does.
\<close>

lemma invariants_kept:
  assumes "distinct (map pid (products s))" "view_ok s"
  shows "distinct (map pid (products (fst (add_product f nm q b sl s)))) \<and>
           view_ok (fst (add_product f nm q b sl s))"
    and "distinct (map pid (products (fst (sell_item f sel n confirm now s)))) \<and>
           view_ok (fst (sell_item f sel n confirm now s))"
    and "distinct (map pid (products (fst (delete_item f sel confirm s)))) \<and>
           view_ok (fst (delete_item f sel confirm s))"
    and "distinct (map pid (products (fst (undo_last f s)))) \<and> view_ok (fst (undo_last f s))"
    and "distinct (map pid (products (fst (delete_sales_record f sel confirm s)))) \<and>
           view_ok (fst (delete_sales_record f sel confirm s))"
proof -
  show "distinct (map pid (products (fst (add_product f nm q b sl s)))) \<and>
           view_ok (fst (add_product f nm q b sl s))"
    by (rule shape_invariants [OF add_product_shape assms])
  show "distinct (map pid (products (fst (sell_item f sel n confirm now s)))) \<and>
           view_ok (fst (sell_item f sel n confirm now s))"
    by (rule shape_invariants [OF sell_item_shape assms])
  show "distinct (map pid (products (fst (delete_item f sel confirm s)))) \<and>
           view_ok (fst (delete_item f sel confirm s))"
    by (rule shape_invariants [OF delete_item_shape assms])
  show "distinct (map pid (products (fst (undo_last f s)))) \<and> view_ok (fst (undo_last f s))"
    by (rule shape_invariants [OF undo_last_shape assms])
  show "distinct (map pid (products (fst (delete_sales_record f sel confirm s)))) \<and>
           view_ok (fst (delete_sales_record f sel confirm s))"
    using delete_sales_record_shape [of f sel confirm s] assms by (simp add: view_ok_def)
qed


lemma distinct_sids_refresh:
  "distinct (map sid (sales_log (refresh_list f t))) = distinct (map sid (sales_log t))"
  by (simp only: sids_refresh_list)

lemma distinct_sids_compensate:
  assumes d: "distinct (map sid (sales_log s))"
  shows "distinct (map sid (sales_log (fst (compensate f e s))))"
proof -
  have n: "distinct (map sid (map (set_null k) (sales_log s)))" for k
    using d by (simp only: sids_set_null)
  have a: "distinct (map sid (sales_log (fst (undo_add f pl s))))" for pl
    using d n by (simp add: sales_undo_add split: option.splits del: map_map)
  have b: "distinct (map sid (sales_log (fst (undo_sell f pl s))))" for pl
    using d by (simp add: sales_undo_sell distinct_map_filter split: option.splits)
  show ?thesis
    using a b d by (simp add: compensate_def sales_undo_delete)
qed

text \<open>The primary key of \<^verbatim>\<open>sales_log\<close> holds after every command as well.\<close>

lemma sale_ids_kept:
  assumes d: "distinct (map sid (sales_log s))"
  shows "distinct (map sid (sales_log (fst (add_product f nm q b sl s))))"
    and "distinct (map sid (sales_log (fst (sell_item f sel n confirm now s))))"
    and "distinct (map sid (sales_log (fst (delete_item f sel confirm s))))"
    and "distinct (map sid (sales_log (fst (undo_last f s))))"
    and "distinct (map sid (sales_log (fst (delete_sales_record f sel confirm s))))"
proof -
  show "distinct (map sid (sales_log (fst (add_product f nm q b sl s))))"
    using d
    by (cases q; cases b; cases sl)
       (simp_all add: add_product_def Let_def distinct_sids_refresh log_action_def)
  have fresh: "distinct (map sid (sales_log s) @ [next_rowid (sales_seq s) (map sid (sales_log s))])"
    using d next_rowid_fresh [of _ "map sid (sales_log s)" "sales_seq s"] by auto
  show "distinct (map sid (sales_log (fst (sell_item f sel n confirm now s))))"
    using d fresh
    by (simp add: sell_item_def Let_def distinct_sids_refresh split: option.splits)
  have n: "distinct (map sid (map (set_null k) (sales_log s)))" for k
    using d by (simp only: sids_set_null)
  show "distinct (map sid (sales_log (fst (delete_item f sel confirm s))))"
    using d n
    by (simp add: delete_item_def Let_def distinct_sids_refresh split: option.splits del: map_map)
  show "distinct (map sid (sales_log (fst (undo_last f s))))"
  proof (cases "pop_undo_db f s")
    case (Pair s1 eo)
    have s1: "sales_log s1 = sales_log s"
      using Pair by (auto simp: pop_undo_db_def split: if_splits option.splits)
    show ?thesis
    proof (cases eo)
      case None
      with Pair s1 d show ?thesis by (simp add: undo_last_def)
    next
      case (Some e)
      have "fst (undo_last f s) = refresh_list f (fst (compensate f e s1))"
        using Pair Some by (simp add: undo_last_def split: prod.splits)
      then show ?thesis
        using distinct_sids_compensate [of s1 f e] d s1 by (simp add: distinct_sids_refresh)
    qed
  qed
  show "distinct (map sid (sales_log (fst (delete_sales_record f sel confirm s))))"
    using d by (simp add: delete_sales_record_def distinct_map_filter split: option.splits)
qed

end
